theory Spec2Isabelle
  imports Complex_Main
begin

section \<open>JavaScript values used by the extension\<close>

text \<open>
  Strings are lists of code units below 256 (the Latin-1 range of UTF-16), which is what
  \<^typ>\<open>string\<close> holds. An optional field of a TypeScript interface is an
  \<^typ>\<open>string option\<close>; JavaScript's truthiness test on such a field (\<^verbatim>\<open>if (x)\<close>,
  \<^verbatim>\<open>!x\<close>, \<^verbatim>\<open>x || d\<close>) treats both \<^verbatim>\<open>undefined\<close> and the empty string as false.
\<close>

definition truthy :: "string option \<Rightarrow> bool" where
  "truthy v = (case v of None \<Rightarrow> False | Some s \<Rightarrow> s \<noteq> [])"

definition orElse :: "string option \<Rightarrow> string \<Rightarrow> string" where
  "orElse v d = (case v of None \<Rightarrow> d | Some s \<Rightarrow> if s = [] then d else s)"

text \<open>White space and line terminators of ECMAScript that lie below 256.\<close>

definition isWhiteSpace :: "char \<Rightarrow> bool" where
  "isWhiteSpace c =
     (c \<in> set [CHR 0x09, CHR 0x0A, CHR 0x0B, CHR 0x0C, CHR 0x0D, CHR 0x20, CHR 0xA0])"

definition trim :: "string \<Rightarrow> string" where
  "trim s = rev (dropWhile isWhiteSpace (rev (dropWhile isWhiteSpace s)))"

text \<open>
  \<^verbatim>\<open>toLowerCase\<close> on code units below 256: the capital letters of ASCII and of Latin-1
  (all of 0xC0 to 0xDE but the multiplication sign) move up by 32.
\<close>

definition toLowerCase_unit :: "char \<Rightarrow> char" where
  "toLowerCase_unit c =
     (let n = of_char c :: nat
      in if (65 \<le> n \<and> n \<le> 90) \<or> (192 \<le> n \<and> n \<le> 222 \<and> n \<noteq> 215)
         then char_of (n + 32) else c)"

definition toLowerCase :: "string \<Rightarrow> string" where
  "toLowerCase s = map toLowerCase_unit s"

text \<open>\<^verbatim>\<open>s.includes(sub)\<close>\<close>

fun str_includes :: "string \<Rightarrow> string \<Rightarrow> bool" where
  "str_includes [] sub = (sub = [])"
| "str_includes (c # cs) sub = (take (length sub) (c # cs) = sub \<or> str_includes cs sub)"

text \<open>\<^verbatim>\<open>parts.join(sep)\<close>\<close>

fun join :: "string \<Rightarrow> string list \<Rightarrow> string" where
  "join sep [] = []"
| "join sep [x] = x"
| "join sep (x # y # ys) = x @ sep @ join sep (y # ys)"

section \<open>Data of the remote store's interface (odamClient.ts)\<close>

text \<open>
  An absent \<^verbatim>\<open>sections\<close> or \<^verbatim>\<open>entities\<close> array is the empty list (the code reads them
  through \<^verbatim>\<open>|| []\<close> or tests their length), and an entity's absent \<^verbatim>\<open>properties\<close> is
  the empty bag (\<^verbatim>\<open>entity.properties || {}\<close>). Property values are strings.
\<close>

record SectionItem =
  label :: string
  item_values :: "string list"

record Section =
  title :: string
  items :: "SectionItem list"

record Entity =
  entity_id :: string
  name :: string
  category :: string
  properties :: "string \<rightharpoonup> string"
  confidence :: real

record CodeMemoryResponse =
  sections :: "Section list"
  entities :: "Entity list"
  context_text :: string
  entities_total :: "nat option"

record MemoryContextResult =
  result_context :: string
  memoriesFound :: nat
  codeMemory :: "CodeMemoryResponse option"

record CodeArtifact =
  artifact_identifier :: string
  path :: "string option"
  language :: "string option"
  summary :: "string option"
  status :: "string option"
  tags :: "string list"
  outcome :: "string option"
  chunk_id :: "string option"
  diff :: "string option"
  test_status :: "string option"

section \<open>Interaction correlator (hookEventProcessor.ts)\<close>

text \<open>
  The server hands the handlers whatever \<^verbatim>\<open>JSON.parse\<close> returned, cast to the payload
  interface without a check, so the fields the handlers read are JavaScript values:
  \<^verbatim>\<open>null\<close>, a boolean, a number, a string, or an array or object. The handlers test an
  array or object for truthiness and use it as a key of a \<^verbatim>\<open>Map\<close>, where it is compared
  by identity and not by content; \<open>'r\<close> is the type of identities. An absent field
  (\<^verbatim>\<open>undefined\<close>) is \<open>None\<close>. A parsed payload's objects are identified by the serial
  number of the payload and the name of the field.
\<close>

datatype 'r js_value = JNull | JBool bool | JNumber real | JString string | JObject 'r

type_synonym js = "(nat \<times> string) js_value"

definition js_truthy :: "'r js_value option \<Rightarrow> bool" where
  "js_truthy v =
     (case v of
        None \<Rightarrow> False
      | Some JNull \<Rightarrow> False
      | Some (JBool b) \<Rightarrow> b
      | Some (JNumber x) \<Rightarrow> x \<noteq> 0
      | Some (JString s) \<Rightarrow> s \<noteq> []
      | Some (JObject r) \<Rightarrow> True)"

datatype hook_error = WorkspaceNotAvailable | TypeError | UpdaterRejected

text \<open>
  \<^verbatim>\<open>(v || '').trim()\<close>: a falsy value gives the empty string, a string is trimmed, and
  any other truthy value has no \<^verbatim>\<open>trim\<close> method, so the call throws a TypeError.
\<close>

definition trimmed :: "'r js_value option \<Rightarrow> hook_error + string" where
  "trimmed v =
     (if \<not> js_truthy v then Inr []
      else (case v of Some (JString s) \<Rightarrow> Inr (trim s) | _ \<Rightarrow> Inl TypeError))"

text \<open>
  The payload interfaces share the two correlation identifiers; \<open>lookupInteraction\<close>
  accepts a response or a thought payload and reads only those two fields, so the
  payloads are extensions of one record. The thought payload's \<^verbatim>\<open>duration_ms\<close> only
  appears in a log label and is left out.
\<close>

record HookIds =
  conversation_id :: "js option"
  generation_id :: "js option"

record HookPromptPayload = HookIds +
  prompt :: "js option"
  model_name :: "js option"

record HookResponsePayload = HookIds +
  response_text :: "js option"

record HookThoughtPayload = HookIds +
  thought_text :: "js option"

record PendingInteraction =
  query :: string
  conversationId :: "js option"
  generationId :: "js option"
  model :: "js option"
  createdAt :: int

record HookEventProcessor =
  pendingByGeneration :: "js \<rightharpoonup> PendingInteraction"
  pendingByConversation :: "js \<rightharpoonup> PendingInteraction"

definition new_processor :: HookEventProcessor where
  "new_processor = \<lparr>pendingByGeneration = Map.empty, pendingByConversation = Map.empty\<rparr>"

text \<open>\<^verbatim>\<open>if (key) map.set(key, interaction)\<close>\<close>

definition set_pending ::
  "js option \<Rightarrow> PendingInteraction \<Rightarrow> (js \<rightharpoonup> PendingInteraction)
     \<Rightarrow> (js \<rightharpoonup> PendingInteraction)" where
  "set_pending key i m =
     (case key of None \<Rightarrow> m | Some k \<Rightarrow> if js_truthy (Some k) then m(k \<mapsto> i) else m)"

text \<open>\<^verbatim>\<open>if (key) map.delete(key)\<close>\<close>

definition delete_pending ::
  "js option \<Rightarrow> (js \<rightharpoonup> PendingInteraction) \<Rightarrow> (js \<rightharpoonup> PendingInteraction)" where
  "delete_pending key m =
     (case key of None \<Rightarrow> m | Some k \<Rightarrow> if js_truthy (Some k) then m(k := None) else m)"

text \<open>\<^verbatim>\<open>key && map.has(key)\<close> followed by \<^verbatim>\<open>map.get(key)\<close>\<close>

definition get_pending ::
  "js option \<Rightarrow> (js \<rightharpoonup> PendingInteraction) \<Rightarrow> PendingInteraction option" where
  "get_pending key m =
     (case key of None \<Rightarrow> None | Some k \<Rightarrow> if js_truthy (Some k) then m k else None)"

text \<open>
  The two deletions both branches of \<open>lookupInteraction\<close> perform on the interaction
  they found: by the interaction's own identifiers, not by the payload's.
\<close>

definition remove_interaction :: "PendingInteraction \<Rightarrow> HookEventProcessor \<Rightarrow> HookEventProcessor" where
  "remove_interaction i s =
     \<lparr>pendingByGeneration = delete_pending (generationId i) (pendingByGeneration s),
      pendingByConversation = delete_pending (conversationId i) (pendingByConversation s)\<rparr>"

definition lookupInteraction ::
  "'a HookIds_scheme \<Rightarrow> HookEventProcessor \<Rightarrow> PendingInteraction option \<times> HookEventProcessor" where
  "lookupInteraction payload s =
     (case get_pending (generation_id payload) (pendingByGeneration s) of
        Some i \<Rightarrow> (Some i, remove_interaction i s)
      | None \<Rightarrow>
          (case get_pending (conversation_id payload) (pendingByConversation s) of
             Some i \<Rightarrow> (Some i, remove_interaction i s)
           | None \<Rightarrow> (None, s)))"

text \<open>
  The processor's collaborators are injected (\<open>HookEventProcessorDeps\<close>). A handler's
  calls to them are returned as a list, in order; what the collaborators answer is part
  of the dependency record: the folder \<^verbatim>\<open>workspaceProvider()\<close> returns (a workspace folder
  is identified by its \<^verbatim>\<open>uri.fsPath\<close>), and whether the awaited
  \<^verbatim>\<open>updateMemoryAfterResponse\<close> rejects. \<open>updateMemoryFile\<close> catches every error of
  its own body, so the await in \<open>handleBeforePrompt\<close> never rejects.
\<close>

type_synonym WorkspaceFolder = string

datatype dep_call =
    UpdateMemoryFile string WorkspaceFolder
  | UpdateMemoryAfterResponse string string "CodeArtifact list" WorkspaceFolder
  | GetMemoryStats string string
  | LogCursorContext string

record HookEventProcessorDeps =
  workspaceProvider :: "WorkspaceFolder option"
  updater_rejects :: bool
  has_logger :: bool
  has_statusBar :: bool
  deps_userId :: "string option"

text \<open>\<^verbatim>\<open>sha256(path).digest('hex').substring(0, 16)\<close>; the hash function is a parameter.\<close>

definition getSessionId :: "(string \<Rightarrow> string) \<Rightarrow> string \<Rightarrow> string" where
  "getSessionId sha256_hex workspacePath = take 16 (sha256_hex workspacePath)"

text \<open>
  A handler's payload is \<open>None\<close> when the body was the JSON text \<^verbatim>\<open>null\<close>: the first
  read of a field, which follows the test of the workspace folder, then throws a
  TypeError. \<open>now\<close> is the value of \<^verbatim>\<open>Date.now()\<close>.
\<close>

definition handleBeforePrompt ::
  "HookEventProcessorDeps \<Rightarrow> int \<Rightarrow> HookPromptPayload option \<Rightarrow> HookEventProcessor
     \<Rightarrow> (hook_error + unit) \<times> HookEventProcessor \<times> dep_call list" where
  "handleBeforePrompt deps now payload s =
     (case workspaceProvider deps of
        None \<Rightarrow> (Inl WorkspaceNotAvailable, s, [])
      | Some workspaceFolder \<Rightarrow>
          (case payload of
             None \<Rightarrow> (Inl TypeError, s, [])
           | Some p \<Rightarrow>
               (case trimmed (prompt p) of
                  Inl e \<Rightarrow> (Inl e, s, [])
                | Inr userQuery \<Rightarrow>
                    if userQuery = [] then (Inr (), s, [])
                    else
                      (let interaction =
                             \<lparr>query = userQuery, conversationId = conversation_id p,
                              generationId = generation_id p, model = model_name p,
                              createdAt = now\<rparr>
                       in (Inr (),
                           \<lparr>pendingByGeneration =
                              set_pending (generationId interaction) interaction
                                (pendingByGeneration s),
                            pendingByConversation =
                              set_pending (conversationId interaction) interaction
                                (pendingByConversation s)\<rparr>,
                           [UpdateMemoryFile userQuery workspaceFolder])))))"

text \<open>
  \<open>handleAfterResponse\<close> looks the interaction up before it trims the text, and trims
  the text before its \<^verbatim>\<open>try\<close>: a text that is truthy and not a string throws after
  the lookup has consumed what it found.
\<close>

definition handleAfterResponse ::
  "(string \<Rightarrow> string) \<Rightarrow> HookEventProcessorDeps \<Rightarrow> HookResponsePayload option
     \<Rightarrow> HookEventProcessor \<Rightarrow> (hook_error + unit) \<times> HookEventProcessor \<times> dep_call list" where
  "handleAfterResponse sha256_hex deps payload s =
     (case workspaceProvider deps of
        None \<Rightarrow> (Inl WorkspaceNotAvailable, s, [])
      | Some workspaceFolder \<Rightarrow>
          (case payload of
             None \<Rightarrow> (Inl TypeError, s, [])
           | Some p \<Rightarrow>
               (let (interaction, s') = lookupInteraction p s
                in case trimmed (response_text p) of
                     Inl e \<Rightarrow> (Inl e, s', [])
                   | Inr assistantResponse \<Rightarrow>
                       (case interaction of
                          None \<Rightarrow> (Inr (), s', [])
                        | Some i \<Rightarrow>
                            if query i = [] \<or> assistantResponse = [] then (Inr (), s', [])
                            else
                              (let sync = UpdateMemoryAfterResponse (query i) assistantResponse []
                                            workspaceFolder
                               in if updater_rejects deps then (Inl UpdaterRejected, s', [sync])
                                  else
                                    (Inr (), s',
                                     sync #
                                     (case deps_userId deps of
                                        None \<Rightarrow> []
                                      | Some u \<Rightarrow>
                                          if has_statusBar deps \<and> u \<noteq> []
                                          then [GetMemoryStats u
                                                  (getSessionId sha256_hex workspaceFolder)]
                                          else [])))))))"

text \<open>
  \<open>handleAfterThought\<close> returns before it reads the payload when there is no logger.
  Otherwise it passes \<^verbatim>\<open>payload.text || ''\<close> to \<open>logCursorContext\<close>, whose first step
  \<^verbatim>\<open>query.substring(0, 500)\<close> throws a TypeError for a value that is not a string.
\<close>

definition handleAfterThought ::
  "HookEventProcessorDeps \<Rightarrow> HookThoughtPayload option \<Rightarrow> HookEventProcessor
     \<Rightarrow> (hook_error + unit) \<times> HookEventProcessor \<times> dep_call list" where
  "handleAfterThought deps payload s =
     (if \<not> has_logger deps then (Inr (), s, [])
      else
        (case payload of
           None \<Rightarrow> (Inl TypeError, s, [])
         | Some p \<Rightarrow>
             if \<not> js_truthy (thought_text p) then (Inr (), s, [LogCursorContext []])
             else
               (case thought_text p of
                  Some (JString t) \<Rightarrow> (Inr (), s, [LogCursorContext t])
                | _ \<Rightarrow> (Inl TypeError, s, []))))"

definition clear :: "HookEventProcessor \<Rightarrow> HookEventProcessor" where
  "clear s = \<lparr>pendingByGeneration = Map.empty, pendingByConversation = Map.empty\<rparr>"

text \<open>
  Every pending interaction is filed under its own identifiers: that is how
  \<open>handleBeforePrompt\<close> stores it, and a key is always truthy.
\<close>

definition index_inv :: "HookEventProcessor \<Rightarrow> bool" where
  "index_inv s =
     ((\<forall>k i. pendingByGeneration s k = Some i \<longrightarrow> generationId i = Some k \<and> js_truthy (Some k)) \<and>
      (\<forall>k i. pendingByConversation s k = Some i \<longrightarrow>
         conversationId i = Some k \<and> js_truthy (Some k)))"

section \<open>Event intake surface (hookEventServer.ts)\<close>

text \<open>
  A request as \<open>handleRequest\<close> reads it: the method, the headers (Node lower-cases
  their names), the path of the URL, and the body as \<open>readRawBody\<close> and \<^verbatim>\<open>JSON.parse\<close>
  see it: absent or blank, not JSON, the JSON text \<^verbatim>\<open>null\<close>, or any other JSON value,
  given by its properties. An object has the properties of its text; a number, string,
  boolean or array has none of the names the handlers read. The arrays and objects
  among the property values carry no identity in the text: \<open>parse_fields\<close> gives each the
  identity of a newly allocated object, and the server counts the payloads it parsed.
\<close>

datatype body = NoBody | InvalidJson | JsonNull | JsonValue "string \<rightharpoonup> unit js_value"

record IncomingMessage =
  req_method :: string
  headers :: "string \<rightharpoonup> string"
  url_pathname :: string
  raw_body :: body

record HookEventServer =
  token :: string
  processor :: HookEventProcessor
  parsed :: nat

datatype response = Response nat string

definition parse_fields :: "nat \<Rightarrow> (string \<rightharpoonup> unit js_value) \<Rightarrow> (string \<rightharpoonup> js)" where
  "parse_fields n f = (\<lambda>fld. map_option (map_js_value (\<lambda>u. (n, fld))) (f fld))"

definition as_HookPromptPayload :: "(string \<rightharpoonup> js) \<Rightarrow> HookPromptPayload" where
  "as_HookPromptPayload f =
     \<lparr>conversation_id = f ''conversation_id'', generation_id = f ''generation_id'',
      prompt = f ''prompt'', model_name = f ''model''\<rparr>"

definition as_HookResponsePayload :: "(string \<rightharpoonup> js) \<Rightarrow> HookResponsePayload" where
  "as_HookResponsePayload f =
     \<lparr>conversation_id = f ''conversation_id'', generation_id = f ''generation_id'',
      response_text = f ''text''\<rparr>"

definition as_HookThoughtPayload :: "(string \<rightharpoonup> js) \<Rightarrow> HookThoughtPayload" where
  "as_HookThoughtPayload f =
     \<lparr>conversation_id = f ''conversation_id'', generation_id = f ''generation_id'',
      thought_text = f ''text''\<rparr>"

definition validateToken :: "string \<Rightarrow> IncomingMessage \<Rightarrow> bool" where
  "validateToken tok req =
     (case headers req ''x-odam-hook-token'' of
        None \<Rightarrow> False
      | Some header \<Rightarrow> if header = [] then False else header = tok)"

text \<open>
  \<open>handleRequest\<close> either answers or throws what a handler threw; the server with the
  state of the processor afterwards and the handler's calls are returned with it.
\<close>

definition answer ::
  "HookEventServer \<Rightarrow> (hook_error + unit) \<times> HookEventProcessor \<times> dep_call list
     \<Rightarrow> (hook_error + response) \<times> HookEventServer \<times> dep_call list" where
  "answer srv r =
     (case r of
        (Inl e, s, calls) \<Rightarrow> (Inl e, srv\<lparr>processor := s\<rparr>, calls)
      | (Inr u, s, calls) \<Rightarrow> (Inr (Response 200 ''ok''), srv\<lparr>processor := s\<rparr>, calls))"

definition handleRequest ::
  "(string \<Rightarrow> string) \<Rightarrow> HookEventProcessorDeps \<Rightarrow> int \<Rightarrow> HookEventServer \<Rightarrow> IncomingMessage
     \<Rightarrow> (hook_error + response) \<times> HookEventServer \<times> dep_call list" where
  "handleRequest sha256_hex deps now srv req =
     (if req_method req \<noteq> ''POST''
      then (Inr (Response 405 ''method_not_allowed''), srv, [])
      else if \<not> validateToken (token srv) req
      then (Inr (Response 401 ''unauthorized''), srv, [])
      else if raw_body req = NoBody
      then (Inr (Response 400 ''empty_body''), srv, [])
      else if raw_body req = InvalidJson
      then (Inr (Response 400 ''invalid_json''), srv, [])
      else
        (let payload = (case raw_body req of
                          JsonValue f \<Rightarrow> Some (parse_fields (parsed srv) f)
                        | _ \<Rightarrow> None);
             srv' = srv\<lparr>parsed := parsed srv + 1\<rparr>
         in if url_pathname req = ''/hook/before''
            then answer srv'
                   (handleBeforePrompt deps now (map_option as_HookPromptPayload payload)
                      (processor srv))
            else if url_pathname req = ''/hook/after''
            then answer srv'
                   (handleAfterResponse sha256_hex deps
                      (map_option as_HookResponsePayload payload) (processor srv))
            else if url_pathname req = ''/hook/thought''
            then answer srv'
                   (handleAfterThought deps (map_option as_HookThoughtPayload payload)
                      (processor srv))
            else (Inr (Response 404 ''not_found''), srv', [])))"

text \<open>
  The callback of \<^verbatim>\<open>http.createServer\<close> in \<open>start\<close>: an error thrown by
  \<open>handleRequest\<close> is answered with status 500.
\<close>

definition serve ::
  "(string \<Rightarrow> string) \<Rightarrow> HookEventProcessorDeps \<Rightarrow> int \<Rightarrow> HookEventServer \<Rightarrow> IncomingMessage
     \<Rightarrow> response \<times> HookEventServer \<times> dep_call list" where
  "serve sha256_hex deps now srv req =
     (case handleRequest sha256_hex deps now srv req of
        (Inl e, srv', calls) \<Rightarrow> (Response 500 ''internal_error'', srv', calls)
      | (Inr r, srv', calls) \<Rightarrow> (r, srv', calls))"

text \<open>The server's life: one request after another, each with what the collaborators
  answer at that time and the clock's value.\<close>

fun serve_all ::
  "(string \<Rightarrow> string) \<Rightarrow> HookEventServer
     \<Rightarrow> (HookEventProcessorDeps \<times> int \<times> IncomingMessage) list \<Rightarrow> HookEventServer" where
  "serve_all sha256_hex srv [] = srv"
| "serve_all sha256_hex srv ((deps, now, req) # rest) =
     serve_all sha256_hex (fst (snd (serve sha256_hex deps now srv req))) rest"

section \<open>Context enhancement engine (memoryContextEnhancer.ts)\<close>

definition findSuccessfulArtifacts :: "Entity list \<Rightarrow> Entity list" where
  "findSuccessfulArtifacts ents =
     filter (\<lambda>entity.
        let props = properties entity
        in props ''status'' = Some ''success'' \<and>
           (props ''test_status'' = Some ''passed'' \<or> \<not> truthy (props ''test_status''))) ents"

definition findProblematicArtifacts :: "Entity list \<Rightarrow> Entity list" where
  "findProblematicArtifacts ents =
     filter (\<lambda>entity.
        let props = properties entity
        in props ''status'' = Some ''failed'' \<or>
           props ''outcome'' = Some ''regression'' \<or>
           props ''test_status'' = Some ''failed'') ents"

definition findEffectiveSolutions :: "Entity list \<Rightarrow> Entity list" where
  "findEffectiveSolutions ents =
     filter (\<lambda>entity.
        let props = properties entity
        in props ''status'' = Some ''success'' \<and>
           (props ''test_status'' = Some ''passed'' \<or> \<not> truthy (props ''test_status'')) \<and>
           (props ''outcome'' = Some ''implemented'' \<or> props ''outcome'' = Some ''bug_fixed'' \<or>
            props ''outcome'' = Some ''optimized'')) ents"

text \<open>\<^verbatim>\<open>if (props.key) details.push(`key: ${props.key}`)\<close>\<close>

definition detail :: "string \<Rightarrow> string option \<Rightarrow> string list" where
  "detail key v = (case v of None \<Rightarrow> [] | Some x \<Rightarrow> if x = [] then [] else [key @ '': '' @ x])"

text \<open>
  \<open>toFixed2\<close> stands for \<^verbatim>\<open>Number.prototype.toFixed(2)\<close>, the one floating-point
  operation of the renderer; it is a parameter.
\<close>

definition formatArtifactForContext :: "(real \<Rightarrow> string) \<Rightarrow> Entity \<Rightarrow> bool \<Rightarrow> string" where
  "formatArtifactForContext toFixed2 artifact isSuccessful =
     (let props = properties artifact;
          parts = [name artifact] @
            (case props ''status'' of
               None \<Rightarrow> []
             | Some st \<Rightarrow> if st = [] then [] else [''['' @ st @ '']'']);
          details =
            detail ''status'' (props ''status'') @ detail ''outcome'' (props ''outcome'') @
            detail ''test_status'' (props ''test_status'') @ detail ''path'' (props ''path'') @
            detail ''language'' (props ''language'') @
            (if confidence artifact \<noteq> 0 then [''conf='' @ toFixed2 (confidence artifact)] else [])
      in join '' ''
           (parts @ (if details \<noteq> [] then [''('' @ join '', '' details @ '')''] else [])))"

text \<open>
  \<open>groupByCategory\<close> fills a plain object. \<^verbatim>\<open>!grouped[category]\<close> also sees what the
  object inherits: for a category named like a member of \<^verbatim>\<open>Object.prototype\<close> the test
  finds that member, no array is created, and \<^verbatim>\<open>grouped[category].push\<close> throws a
  TypeError. The groups are kept in the order in which their keys were first inserted.
\<close>

datatype enhancer_error = PushIsNotAFunction

definition object_prototype_names :: "string list" where
  "object_prototype_names =
     [''constructor'', ''__defineGetter__'', ''__defineSetter__'', ''hasOwnProperty'',
      ''__lookupGetter__'', ''__lookupSetter__'', ''isPrototypeOf'', ''propertyIsEnumerable'',
      ''toString'', ''valueOf'', ''__proto__'', ''toLocaleString'']"

text \<open>\<^verbatim>\<open>artifact.category || artifact.properties?.[categoryKey] || 'Other'\<close>\<close>

definition categoryOf :: "string \<Rightarrow> Entity \<Rightarrow> string" where
  "categoryOf categoryKey artifact =
     (if category artifact \<noteq> [] then category artifact
      else orElse (properties artifact categoryKey) ''Other'')"

fun push_group :: "(string \<times> Entity list) list \<Rightarrow> string \<Rightarrow> Entity \<Rightarrow> (string \<times> Entity list) list" where
  "push_group [] c a = [(c, [a])]"
| "push_group ((k, as) # grouped) c a =
     (if k = c then (k, as @ [a]) # grouped else (k, as) # push_group grouped c a)"

fun group_loop ::
  "(string \<times> Entity list) list \<Rightarrow> string \<Rightarrow> Entity list
     \<Rightarrow> enhancer_error + (string \<times> Entity list) list" where
  "group_loop grouped categoryKey [] = Inr grouped"
| "group_loop grouped categoryKey (artifact # rest) =
     (if categoryOf categoryKey artifact \<in> set object_prototype_names
      then Inl PushIsNotAFunction
      else group_loop (push_group grouped (categoryOf categoryKey artifact) artifact)
             categoryKey rest)"

definition groupByCategory ::
  "Entity list \<Rightarrow> string \<Rightarrow> enhancer_error + (string \<times> Entity list) list" where
  "groupByCategory artifacts categoryKey = group_loop [] categoryKey artifacts"

text \<open>
  \<^verbatim>\<open>Object.entries\<close> lists the keys that are array indices first, in ascending numeric
  order, and then the other keys in insertion order. An array index is the canonical
  decimal numeral of a number up to \<open>2\<^sup>3\<^sup>2 - 2\<close>.
\<close>

definition decimal :: "string \<Rightarrow> nat" where
  "decimal s = foldl (\<lambda>n c. 10 * n + (of_char c - 48)) 0 s"

definition array_index :: "string \<Rightarrow> nat option" where
  "array_index s =
     (if s \<noteq> [] \<and> (\<forall>c \<in> set s. 48 \<le> (of_char c :: nat) \<and> (of_char c :: nat) \<le> 57) \<and>
         (s = ''0'' \<or> hd s \<noteq> CHR ''0'') \<and> decimal s \<le> 4294967294
      then Some (decimal s) else None)"

definition object_entries :: "(string \<times> 'a) list \<Rightarrow> (string \<times> 'a) list" where
  "object_entries grouped =
     sort_key (\<lambda>e. case array_index (fst e) of Some n \<Rightarrow> n | None \<Rightarrow> 0)
       (filter (\<lambda>e. array_index (fst e) \<noteq> None) grouped) @
     filter (\<lambda>e. array_index (fst e) = None) grouped"

text \<open>
  \<open>buildEnhancedSections\<close> pushes the new items onto the technical-profile section it
  found, which is the object of the input list; that section is not appended a second
  time because step 4 skips its title, so the returned list is the one below.
\<close>

definition buildEnhancedSections ::
  "(real \<Rightarrow> string) \<Rightarrow> Section list \<Rightarrow> Entity list \<Rightarrow> Entity list \<Rightarrow> Entity list
     \<Rightarrow> enhancer_error + Section list" where
  "buildEnhancedSections toFixed2 existingSections successfulArtifacts problematicArtifacts
       effectiveSolutions =
     (case (if successfulArtifacts \<noteq> [] then groupByCategory successfulArtifacts ''language''
            else Inr []) of
        Inl e \<Rightarrow> Inl e
      | Inr languages \<Rightarrow>
          (let found =
                 (case List.find (\<lambda>s. str_includes (toLowerCase (title s)) ''technical profile'')
                         existingSections of
                    Some s \<Rightarrow> s
                  | None \<Rightarrow> \<lparr>title = ''Technical Profile'', items = []\<rparr>);
               techProfileSection =
                 found\<lparr>items := items found @
                   map (\<lambda>(category, artifacts).
                          \<lparr>label = (if category = [] then ''Languages / DSL'' else category),
                           item_values =
                             map (\<lambda>a. formatArtifactForContext toFixed2 a True) artifacts\<rparr>)
                     (object_entries languages)\<rparr>;
               emitted =
                 [techProfileSection] @
                 (if effectiveSolutions \<noteq> []
                  then [\<lparr>title = ''Proven Solutions'',
                         items = [\<lparr>label = ''Solutions'',
                                   item_values =
                                     map (\<lambda>a. formatArtifactForContext toFixed2 a True)
                                       effectiveSolutions\<rparr>]\<rparr>]
                  else []) @
                 (if problematicArtifacts \<noteq> []
                  then [\<lparr>title = ''Known Issues'',
                         items = [\<lparr>label = ''Problems'',
                                   item_values =
                                     map (\<lambda>a. formatArtifactForContext toFixed2 a False)
                                       problematicArtifacts\<rparr>]\<rparr>]
                  else []);
               existingTitles = map (\<lambda>s. toLowerCase (title s)) emitted
           in Inr (emitted @
                   filter (\<lambda>section. toLowerCase (title section) \<notin> set existingTitles)
                     existingSections)))"

text \<open>
  \<open>enhanceContext\<close> returns the response unchanged when it has no entities; an error
  thrown while grouping leaves through it.
\<close>

definition enhanceContext ::
  "(real \<Rightarrow> string) \<Rightarrow> CodeMemoryResponse \<Rightarrow> enhancer_error + CodeMemoryResponse" where
  "enhanceContext toFixed2 cm =
     (if entities cm = [] then Inr cm
      else
        (case buildEnhancedSections toFixed2 (sections cm)
                (findSuccessfulArtifacts (entities cm))
                (findProblematicArtifacts (entities cm))
                (findEffectiveSolutions (entities cm)) of
           Inl e \<Rightarrow> Inl e
         | Inr enhancedSections \<Rightarrow> Inr (cm\<lparr>sections := enhancedSections\<rparr>)))"

section \<open>Reading context from the remote store (odamClient.ts)\<close>

definition formatCodeMemorySectionsAsContext :: "CodeMemoryResponse \<Rightarrow> string" where
  "formatCodeMemorySectionsAsContext cm =
     join [CHR 0x0A]
       (concat (map (\<lambda>section.
                  [''### '' @ title section] @
                  map (\<lambda>item. ''- '' @ label item @ '': '' @ join '', '' (item_values item))
                    (items section) @
                  [[]])
                (sections cm)) @
        (if entities cm \<noteq> []
         then [''### Entities from memory:''] @
              map (\<lambda>entity.
                     let nm = (if name entity \<noteq> [] then name entity
                               else if entity_id entity \<noteq> [] then entity_id entity
                               else ''Unknown'');
                         props = properties entity;
                         details = detail ''status'' (props ''status'') @
                                   detail ''outcome'' (props ''outcome'') @
                                   detail ''path'' (props ''path'')
                     in ''- '' @ nm @
                        (if details \<noteq> [] then '' ('' @ join '', '' details @ '')'' else []))
                (take 10 (entities cm)) @
              [[]]
         else []))"

text \<open>
  \<open>api\<close> is \<open>fetchCodeMemoryContextFromApi\<close>: the answer of the remote store's
  \<^verbatim>\<open>context\<close> operation, or \<open>None\<close> (\<^verbatim>\<open>null\<close>) for every failure of the request.
  \<open>fetchMemoryContext\<close> never throws: its own \<^verbatim>\<open>catch\<close> returns the empty result.
\<close>

definition fetchMemoryContext ::
  "(string \<Rightarrow> string \<Rightarrow> string option \<Rightarrow> CodeMemoryResponse option)
     \<Rightarrow> string \<Rightarrow> string \<Rightarrow> string option \<Rightarrow> MemoryContextResult" where
  "fetchMemoryContext api qry userId sessionId =
     (let effectiveQuery = (if trim qry \<noteq> [] then trim qry else ''Get user memory context'')
      in case api effectiveQuery userId sessionId of
           None \<Rightarrow> \<lparr>result_context = [], memoriesFound = 0, codeMemory = None\<rparr>
         | Some cm \<Rightarrow>
             if context_text cm \<noteq> [] \<or> sections cm \<noteq> [] \<or> entities cm \<noteq> []
             then \<lparr>result_context =
                     (if context_text cm = [] \<and> sections cm \<noteq> []
                      then formatCodeMemorySectionsAsContext cm else context_text cm),
                   memoriesFound =
                     (case entities_total cm of
                        None \<Rightarrow> length (entities cm)
                      | Some n \<Rightarrow> if n = 0 then length (entities cm) else n),
                   codeMemory = Some cm\<rparr>
             else \<lparr>result_context = [], memoriesFound = 0, codeMemory = None\<rparr>)"

section \<open>Local context cache (memoryContextProvider.ts)\<close>

record CacheEntry =
  cached_context :: string
  timestamp :: int

record MemoryContextProvider =
  provider_userId :: string
  cache :: "string \<rightharpoonup> CacheEntry"

definition cacheTimeout :: int where
  "cacheTimeout = 60000"

datatype client_error = ClientError

datatype client_call = FetchMemoryContext string string "string option"

definition cacheKey ::
  "(string \<Rightarrow> string) \<Rightarrow> string \<Rightarrow> string \<Rightarrow> string option \<Rightarrow> string" where
  "cacheKey sha256_hex userId userQuery workspacePath =
     (let sessionId = (if truthy workspacePath
                       then Some (getSessionId sha256_hex (orElse workspacePath []))
                       else None)
      in userId @ '':'' @ orElse sessionId ''global'' @ '':'' @ take 50 userQuery)"

text \<open>
  \<open>getMemoryContext\<close> reads the clock twice: \<open>now\<close> when it tests the cached entry,
  \<open>now'\<close> when it stores the fetched one. \<open>client\<close> is the injected
  \<^verbatim>\<open>fetchMemoryContext\<close>; \<open>Inl\<close> is a call that throws. The result is the returned
  context, the provider afterwards and the calls made to the client.
\<close>

definition getMemoryContext ::
  "(string \<Rightarrow> string)
     \<Rightarrow> (string \<Rightarrow> string \<Rightarrow> string option \<Rightarrow> client_error + MemoryContextResult)
     \<Rightarrow> int \<Rightarrow> int \<Rightarrow> string \<Rightarrow> string option \<Rightarrow> MemoryContextProvider
     \<Rightarrow> string \<times> MemoryContextProvider \<times> client_call list" where
  "getMemoryContext sha256_hex client now now' userQuery workspacePath p =
     (let sessionId = (if truthy workspacePath
                       then Some (getSessionId sha256_hex (orElse workspacePath []))
                       else None);
          k = cacheKey sha256_hex (provider_userId p) userQuery workspacePath;
          call = FetchMemoryContext userQuery (provider_userId p) sessionId
      in case (case cache p k of
                 None \<Rightarrow> None
               | Some cached \<Rightarrow>
                   if now - timestamp cached < cacheTimeout then Some cached else None) of
           Some cached \<Rightarrow> (cached_context cached, p, [])
         | None \<Rightarrow>
             (case client userQuery (provider_userId p) sessionId of
                Inl e \<Rightarrow> ([], p, [call])
              | Inr result \<Rightarrow>
                  (result_context result,
                   (if result_context result \<noteq> []
                    then p\<lparr>cache := (cache p)
                           (k \<mapsto> \<lparr>cached_context = result_context result, timestamp = now'\<rparr>)\<rparr>
                    else p),
                   [call])))"

definition clearCache :: "MemoryContextProvider \<Rightarrow> MemoryContextProvider" where
  "clearCache p = p\<lparr>cache := Map.empty\<rparr>"

definition cache_nonempty :: "MemoryContextProvider \<Rightarrow> bool" where
  "cache_nonempty p = (\<forall>k e. cache p k = Some e \<longrightarrow> cached_context e \<noteq> [])"

text \<open>The provider's life: constructed with an empty cache, then any lookups and resets.\<close>

datatype provider_op =
    Get int int string "string option"
  | ClearCache

fun provider_run ::
  "(string \<Rightarrow> string)
     \<Rightarrow> (string \<Rightarrow> string \<Rightarrow> string option \<Rightarrow> client_error + MemoryContextResult)
     \<Rightarrow> MemoryContextProvider \<Rightarrow> provider_op list \<Rightarrow> MemoryContextProvider" where
  "provider_run sha256_hex client p [] = p"
| "provider_run sha256_hex client p (Get now now' q ws # ops) =
     provider_run sha256_hex client
       (fst (snd (getMemoryContext sha256_hex client now now' q ws p))) ops"
| "provider_run sha256_hex client p (ClearCache # ops) =
     provider_run sha256_hex client (clearCache p) ops"

section \<open>Synchronization sequencer (memoryFileUpdater.ts)\<close>

text \<open>\<^verbatim>\<open>Buffer.from(s)\<close> encodes in UTF-8; \<^verbatim>\<open>toString('base64')\<close> is RFC 4648 with padding.\<close>

definition utf8 :: "char \<Rightarrow> nat list" where
  "utf8 c =
     (let n = of_char c :: nat
      in if n < 128 then [n] else [192 + n div 64, 128 + n mod 64])"

definition base64_digit :: "nat \<Rightarrow> char" where
  "base64_digit n =
     (''ABCDEFGHIJKLMNOPQRSTUVWXYZabcdefghijklmnopqrstuvwxyz0123456789+/'' ! (n mod 64))"

fun base64 :: "nat list \<Rightarrow> string" where
  "base64 [] = []"
| "base64 [a] = [base64_digit (a div 4), base64_digit ((a mod 4) * 16), CHR ''='', CHR ''='']"
| "base64 [a, b] =
     [base64_digit (a div 4), base64_digit ((a mod 4) * 16 + b div 16),
      base64_digit ((b mod 16) * 4), CHR ''='']"
| "base64 (a # b # c # rest) =
     [base64_digit (a div 4), base64_digit ((a mod 4) * 16 + b div 16),
      base64_digit ((b mod 16) * 4 + c div 64), base64_digit (c mod 64)] @ base64 rest"

definition chunkIdSource :: "string \<Rightarrow> string \<Rightarrow> string" where
  "chunkIdSource ident pth = ident @ '':'' @ pth"

definition derive_chunk_id :: "string \<Rightarrow> string \<Rightarrow> string" where
  "derive_chunk_id ident pth = take 32 (base64 (concat (map utf8 (chunkIdSource ident pth))))"

text \<open>The callback of \<^verbatim>\<open>artifacts.map\<close> in \<open>updateMemoryAfterResponse\<close>.\<close>

definition withChunkId :: "CodeArtifact \<Rightarrow> CodeArtifact" where
  "withChunkId artifact =
     (if \<not> truthy (chunk_id artifact) \<and> artifact_identifier artifact \<noteq> [] \<and>
         truthy (path artifact)
      then artifact\<lparr>chunk_id :=
             Some (derive_chunk_id (artifact_identifier artifact) (orElse (path artifact) []))\<rparr>
      else artifact)"

definition artifactsWithChunkId :: "CodeArtifact list \<Rightarrow> CodeArtifact list" where
  "artifactsWithChunkId artifacts = map withChunkId artifacts"

record CodeInteractionPayload =
  user_id :: string
  session_id :: string
  payload_query :: string
  payload_response :: string
  artifacts :: "CodeArtifact list"
  metadata :: "string \<rightharpoonup> string"

datatype updater_call =
    RecordCodeArtifact CodeInteractionPayload
  | Wait nat
  | UpdateMemoryFileAgain string WorkspaceFolder

text \<open>
  \<open>updateMemoryAfterResponse\<close>, as the calls it makes in order: the remote write, the
  settle delay, the refresh of the memory file. \<open>recordCodeArtifact\<close> answers \<^verbatim>\<open>null\<close>
  on failure instead of throwing, so the later steps follow a failed write as well.
  \<open>git\<close> is what \<open>getGitMetadata\<close> collected. The function tests no in-progress flag.
\<close>

definition updateMemoryAfterResponse ::
  "(string \<Rightarrow> string) \<Rightarrow> (string \<rightharpoonup> string) \<Rightarrow> string \<Rightarrow> string \<Rightarrow> string \<Rightarrow> CodeArtifact list
     \<Rightarrow> WorkspaceFolder option \<Rightarrow> updater_call list" where
  "updateMemoryAfterResponse sha256_hex git userId userQuery assistantResponse arts workspaceFolder =
     (case workspaceFolder of
        None \<Rightarrow> []
      | Some ws \<Rightarrow>
          [RecordCodeArtifact
             \<lparr>user_id = userId, session_id = getSessionId sha256_hex ws,
              payload_query = userQuery, payload_response = assistantResponse,
              artifacts = artifactsWithChunkId arts, metadata = git\<rparr>,
           Wait 2000,
           UpdateMemoryFileAgain userQuery ws])"

section \<open>In-progress flag (cursorChatContextInjector.ts)\<close>

text \<open>
  An async function runs in turns of the event loop, split at its awaits. The model has
  one event for the synchronous start of a call (up to its first await) and one for its
  settling. \<open>updateContextForChat\<close> tests and sets \<open>isUpdating\<close> in its first turn and
  resets it in \<^verbatim>\<open>finally\<close>; the file is written by \<open>updateMemoryFile\<close> before the call
  settles, unless the call rejected. \<open>updateMemoryAfterResponse\<close> of the file updater is
  started by the hook processor and by the injector without any test. \<open>in_flight\<close> are
  the calls that have started and not settled; \<open>file_writes\<close> logs the writes of
  \<^verbatim>\<open>.cursor/rules/odam-memory.mdc\<close>, by workspace.
\<close>

datatype task =
    ChatRefresh WorkspaceFolder string
  | ResponseSync WorkspaceFolder string string

record sequencer =
  isUpdating :: bool
  in_flight :: "task list"
  file_writes :: "WorkspaceFolder list"

datatype loop_event =
    CallUpdateContextForChat WorkspaceFolder string
  | SettleUpdateContextForChat WorkspaceFolder string bool
  | CallUpdateMemoryAfterResponse WorkspaceFolder string string
  | SettleUpdateMemoryAfterResponse WorkspaceFolder string string

definition new_sequencer :: sequencer where
  "new_sequencer = \<lparr>isUpdating = False, in_flight = [], file_writes = []\<rparr>"

fun turn :: "sequencer \<Rightarrow> loop_event \<Rightarrow> sequencer" where
  "turn s (CallUpdateContextForChat ws q) =
     (if isUpdating s then s
      else s\<lparr>isUpdating := True, in_flight := in_flight s @ [ChatRefresh ws q]\<rparr>)"
| "turn s (SettleUpdateContextForChat ws q rejected) =
     (if ChatRefresh ws q \<in> set (in_flight s)
      then s\<lparr>isUpdating := False,
             in_flight := remove1 (ChatRefresh ws q) (in_flight s),
             file_writes := file_writes s @ (if rejected then [] else [ws])\<rparr>
      else s)"
| "turn s (CallUpdateMemoryAfterResponse ws q r) =
     s\<lparr>in_flight := in_flight s @ [ResponseSync ws q r]\<rparr>"
| "turn s (SettleUpdateMemoryAfterResponse ws q r) =
     (if ResponseSync ws q r \<in> set (in_flight s)
      then s\<lparr>in_flight := remove1 (ResponseSync ws q r) (in_flight s),
             file_writes := file_writes s @ [ws]\<rparr>
      else s)"

definition run_loop :: "sequencer \<Rightarrow> loop_event list \<Rightarrow> sequencer" where
  "run_loop s evs = foldl turn s evs"

definition is_chat_refresh :: "task \<Rightarrow> bool" where
  "is_chat_refresh t = (case t of ChatRefresh ws q \<Rightarrow> True | ResponseSync ws q r \<Rightarrow> False)"

text \<open>The flag is set exactly while a call of \<open>updateContextForChat\<close> is in flight, and
  there is at most one.\<close>

definition flag_inv :: "sequencer \<Rightarrow> bool" where
  "flag_inv s =
     ((isUpdating s \<longleftrightarrow> filter is_chat_refresh (in_flight s) \<noteq> []) \<and>
      length (filter is_chat_refresh (in_flight s)) \<le> 1)"

section \<open>Properties of the correlator\<close>

lemma index_inv_new: "index_inv new_processor"
  by (simp add: index_inv_def new_processor_def)

lemma index_inv_clear: "index_inv (clear s)"
  by (simp add: index_inv_def clear_def)

lemma index_inv_remove: "index_inv s \<Longrightarrow> index_inv (remove_interaction i s)"
  by (auto simp: index_inv_def remove_interaction_def delete_pending_def
      split: option.splits if_splits)

lemma index_inv_lookup: "index_inv s \<Longrightarrow> index_inv (snd (lookupInteraction p s))"
  by (simp add: lookupInteraction_def index_inv_remove split: option.splits)

lemma index_inv_before:
  "index_inv s \<Longrightarrow> index_inv (fst (snd (handleBeforePrompt deps now b s)))"
  by (auto simp: handleBeforePrompt_def Let_def index_inv_def set_pending_def
      split: option.splits sum.splits if_splits)

lemma index_inv_after:
  "index_inv s \<Longrightarrow> index_inv (fst (snd (handleAfterResponse sha deps a s)))"
proof (cases "workspaceProvider deps")
  case None
  then show "index_inv s \<Longrightarrow> ?thesis" by (simp add: handleAfterResponse_def)
next
  case ws: (Some w)
  show "index_inv s \<Longrightarrow> ?thesis"
  proof (cases a)
    case None
    with ws show "index_inv s \<Longrightarrow> ?thesis" by (simp add: handleAfterResponse_def)
  next
    case (Some p)
    assume "index_inv s"
    then have inv: "index_inv (snd (lookupInteraction p s))" by (rule index_inv_lookup)
    have "fst (snd (handleAfterResponse sha deps a s)) = snd (lookupInteraction p s)"
      using ws Some
      by (auto simp: handleAfterResponse_def Let_def
          split: prod.splits sum.splits option.splits)
    with inv show ?thesis by simp
  qed
qed

lemma index_inv_thought:
  "index_inv s \<Longrightarrow> index_inv (fst (snd (handleAfterThought deps a s)))"
  by (auto simp: handleAfterThought_def split: option.splits js_value.splits)

lemma answer_state: "processor (fst (snd (answer srv r))) = fst (snd r)"
  by (cases r) (auto simp: answer_def split: sum.splits)

lemma index_inv_handleRequest:
  "index_inv (processor srv) \<Longrightarrow>
   index_inv (processor (fst (snd (handleRequest sha deps now srv req))))"
  by (simp add: handleRequest_def Let_def answer_state index_inv_before index_inv_after
      index_inv_thought)

lemma index_inv_serve:
  "index_inv (processor srv) \<Longrightarrow>
   index_inv (processor (fst (snd (serve sha deps now srv req))))"
  using index_inv_handleRequest[of srv sha deps now req]
  by (auto simp: serve_def split: prod.splits sum.splits)

text \<open>The filing invariant holds in every state the server reaches from its start.\<close>

lemma index_inv_serve_all:
  "index_inv (processor srv) \<Longrightarrow> index_inv (processor (serve_all sha srv reqs))"
proof (induction reqs arbitrary: srv)
  case Nil
  then show ?case by simp
next
  case (Cons r reqs)
  obtain deps now req where r: "r = (deps, now, req)"
    by (cases r) auto
  have "index_inv (processor (fst (snd (serve sha deps now srv req))))"
    using Cons.prems by (rule index_inv_serve)
  then show ?case
    using Cons.IH by (simp add: r)
qed

lemma index_inv_reachable:
  "index_inv (processor (serve_all sha
     \<lparr>token = tok, processor = new_processor, parsed = 0\<rparr> reqs))"
  by (rule index_inv_serve_all) (simp add: index_inv_new)













section \<open>Properties of the intake surface\<close>

text \<open>What the handler of an after event reads of the body.\<close>

lemma trim_Nil: "trim [] = []"
  by (simp add: trim_def)

lemma trimmed_parse:
  "trimmed (parse_fields n f fld) =
     (if js_truthy (f fld) \<and> (\<forall>x. f fld \<noteq> Some (JString x)) then Inl TypeError
      else Inr (case f fld of Some (JString x) \<Rightarrow> trim x | _ \<Rightarrow> []))"
  by (cases "f fld" rule: option.exhaust)
     (auto simp: trimmed_def parse_fields_def js_truthy_def trim_Nil split: js_value.splits)

lemma after_dispatch:
  assumes "req_method req = ''POST''" and "validateToken (token srv) req"
    and "url_pathname req = ''/hook/after''"
    and "raw_body req = JsonNull \<or> raw_body req = JsonValue f"
  shows "handleRequest sha deps now srv req =
     answer (srv\<lparr>parsed := parsed srv + 1\<rparr>)
       (handleAfterResponse sha deps
          (case raw_body req of
             JsonValue f \<Rightarrow> Some (as_HookResponsePayload (parse_fields (parsed srv) f))
           | _ \<Rightarrow> None)
          (processor srv))"
  using assms by (auto simp: handleRequest_def Let_def)

text \<open>
  C3, as the code has it. An after event that passed the intake checks never reaches the
  synchronization step when it resolves no pending interaction or when its text is blank
  after trimming: the handler calls none of its collaborators. It is dropped and answered
  200 when a workspace folder is open and the body is JSON other than \<^verbatim>\<open>null\<close> whose
  \<^verbatim>\<open>text\<close> is absent, falsy or a string; the interaction consumed by the lookup (if any)
  stays consumed. The answer is 500 instead when no workspace folder is open (the handler
  throws before the lookup), when the body is \<^verbatim>\<open>null\<close> (reading a property of it throws),
  and when \<^verbatim>\<open>text\<close> is truthy and not a string (it has no \<^verbatim>\<open>trim\<close>; the lookup has then
  already consumed what it found).
\<close>

theorem unmatched_after_is_dropped:
  assumes post: "req_method req = ''POST''" and tok: "validateToken (token srv) req"
    and pth: "url_pathname req = ''/hook/after''"
  shows "(workspaceProvider deps = None \<and>
            (raw_body req = JsonNull \<or> raw_body req = JsonValue f) \<longrightarrow>
          serve sha deps now srv req =
            (Response 500 ''internal_error'', srv\<lparr>parsed := parsed srv + 1\<rparr>, [])) \<and>
         (raw_body req = JsonNull \<longrightarrow>
          serve sha deps now srv req =
            (Response 500 ''internal_error'', srv\<lparr>parsed := parsed srv + 1\<rparr>, [])) \<and>
         (workspaceProvider deps \<noteq> None \<and> raw_body req = JsonValue f \<and>
          js_truthy (f ''text'') \<and> (\<forall>x. f ''text'' \<noteq> Some (JString x)) \<longrightarrow>
          serve sha deps now srv req =
            (Response 500 ''internal_error'',
             srv\<lparr>processor :=
                   snd (lookupInteraction
                          (as_HookResponsePayload (parse_fields (parsed srv) f)) (processor srv)),
                 parsed := parsed srv + 1\<rparr>,
             [])) \<and>
         (workspaceProvider deps \<noteq> None \<and> raw_body req = JsonValue f \<and>
          (fst (lookupInteraction
                  (as_HookResponsePayload (parse_fields (parsed srv) f)) (processor srv)) = None \<and>
             (\<not> js_truthy (f ''text'') \<or> (\<exists>x. f ''text'' = Some (JString x))) \<or>
           \<not> js_truthy (f ''text'') \<or>
           (\<exists>x. f ''text'' = Some (JString x) \<and> trim x = [])) \<longrightarrow>
          serve sha deps now srv req =
            (Response 200 ''ok'',
             srv\<lparr>processor :=
                   snd (lookupInteraction
                          (as_HookResponsePayload (parse_fields (parsed srv) f)) (processor srv)),
                 parsed := parsed srv + 1\<rparr>,
             []))"
proof -
  define p where "p = as_HookResponsePayload (parse_fields (parsed srv) f)"
  have text_p: "trimmed (response_text p) =
      (if js_truthy (f ''text'') \<and> (\<forall>x. f ''text'' \<noteq> Some (JString x)) then Inl TypeError
       else Inr (case f ''text'' of Some (JString x) \<Rightarrow> trim x | _ \<Rightarrow> []))"
    by (simp add: p_def as_HookResponsePayload_def trimmed_parse)
  have no_folder: "serve sha deps now srv req =
      (Response 500 ''internal_error'', srv\<lparr>parsed := parsed srv + 1\<rparr>, [])"
    if "workspaceProvider deps = None" "raw_body req = JsonNull \<or> raw_body req = JsonValue f"
    unfolding serve_def after_dispatch[OF post tok pth that(2)]
    using that(1) by (simp add: handleAfterResponse_def answer_def)
  have null_body: "serve sha deps now srv req =
      (Response 500 ''internal_error'', srv\<lparr>parsed := parsed srv + 1\<rparr>, [])"
    if "raw_body req = JsonNull"
  proof -
    have "raw_body req = JsonNull \<or> raw_body req = JsonValue f" using that by simp
    note d = after_dispatch[OF post tok pth this]
    show ?thesis
      unfolding serve_def d using that
      by (simp add: handleAfterResponse_def answer_def split: option.splits)
  qed
  have throws: "serve sha deps now srv req =
      (Response 500 ''internal_error'',
       srv\<lparr>processor := snd (lookupInteraction p (processor srv)),
           parsed := parsed srv + 1\<rparr>, [])"
    if ws: "workspaceProvider deps \<noteq> None" and rb: "raw_body req = JsonValue f"
      and tr: "js_truthy (f ''text'')" and ns: "\<forall>x. f ''text'' \<noteq> Some (JString x)"
  proof -
    have "raw_body req = JsonNull \<or> raw_body req = JsonValue f" using rb by simp
    note d = after_dispatch[OF post tok pth this]
    obtain w where w: "workspaceProvider deps = Some w" using ws by auto
    have "handleAfterResponse sha deps (Some p) (processor srv) =
        (Inl TypeError, snd (lookupInteraction p (processor srv)), [])"
      using tr ns w
      by (simp add: handleAfterResponse_def text_p Let_def split: prod.splits)
    then show ?thesis
      unfolding serve_def d using rb by (simp add: answer_def p_def)
  qed
  have dropped: "serve sha deps now srv req =
      (Response 200 ''ok'',
       srv\<lparr>processor := snd (lookupInteraction p (processor srv)),
           parsed := parsed srv + 1\<rparr>, [])"
    if ws: "workspaceProvider deps \<noteq> None" and rb: "raw_body req = JsonValue f"
      and c: "fst (lookupInteraction p (processor srv)) = None \<and>
         (\<not> js_truthy (f ''text'') \<or> (\<exists>x. f ''text'' = Some (JString x))) \<or>
       \<not> js_truthy (f ''text'') \<or>
       (\<exists>x. f ''text'' = Some (JString x) \<and> trim x = [])"
  proof -
    have "raw_body req = JsonNull \<or> raw_body req = JsonValue f" using rb by simp
    note d = after_dispatch[OF post tok pth this]
    obtain w where w: "workspaceProvider deps = Some w" using ws by auto
    have nothrow: "\<not> (js_truthy (f ''text'') \<and> (\<forall>x. f ''text'' \<noteq> Some (JString x)))"
      using c by auto
    define t where "t = (case f ''text'' of Some (JString x) \<Rightarrow> trim x | _ \<Rightarrow> [])"
    have t: "trimmed (response_text p) = Inr t"
      unfolding text_p t_def using nothrow by simp
    have blank: "fst (lookupInteraction p (processor srv)) = None \<or> t = []"
      using c unfolding t_def
      by (auto simp: js_truthy_def trim_Nil split: option.splits js_value.splits)
    have "handleAfterResponse sha deps (Some p) (processor srv) =
        (Inr (), snd (lookupInteraction p (processor srv)), [])"
      using w t blank
      by (auto simp: handleAfterResponse_def Let_def split: prod.splits option.splits)
    then show ?thesis
      unfolding serve_def d using rb by (simp add: answer_def p_def)
  qed
  show ?thesis
    unfolding p_def[symmetric] using no_folder null_body throws dropped by blast
qed

theorem unmatched_after_is_dropped_witness:
  "(let srv = \<lparr>token = ''secret'', processor = new_processor, parsed = 0\<rparr>;
        deps = \<lparr>workspaceProvider = Some ''/w'', updater_rejects = False, has_logger = False,
                has_statusBar = False, deps_userId = None\<rparr>;
        req = \<lparr>req_method = ''POST'', headers = [''x-odam-hook-token'' \<mapsto> ''secret''],
               url_pathname = ''/hook/after'',
               raw_body = JsonValue [''text'' \<mapsto> JString ''done'',
                                     ''generation_id'' \<mapsto> JString ''g'']\<rparr>
    in validateToken (token srv) req \<and>
       serve (\<lambda>p. p) deps 5 srv req = (Response 200 ''ok'', srv\<lparr>parsed := 1\<rparr>, []) \<and>
       serve (\<lambda>p. p) deps 5 srv (req\<lparr>raw_body := JsonValue [''text'' \<mapsto> JNumber 5]\<rparr>) =
         (Response 500 ''internal_error'', srv\<lparr>parsed := 1\<rparr>, []))"
proof -
  let ?srv = "\<lparr>token = ''secret'', processor = new_processor, parsed = 0\<rparr>"
  let ?deps = "\<lparr>workspaceProvider = Some ''/w'', updater_rejects = False, has_logger = False,
                has_statusBar = False, deps_userId = None\<rparr>"
  let ?f = "[''text'' \<mapsto> JString ''done'', ''generation_id'' \<mapsto> JString ''g'']
            :: string \<rightharpoonup> unit js_value"
  let ?n = "[''text'' \<mapsto> JNumber 5] :: string \<rightharpoonup> unit js_value"
  let ?req = "\<lparr>req_method = ''POST'', headers = [''x-odam-hook-token'' \<mapsto> ''secret''],
               url_pathname = ''/hook/after'', raw_body = JsonValue ?f\<rparr>"
  have tok: "validateToken (token ?srv) ?req"
    and tok': "validateToken (token ?srv) (?req\<lparr>raw_body := JsonValue ?n\<rparr>)"
    by (simp_all add: validateToken_def)
  have miss: "lookupInteraction (as_HookResponsePayload (parse_fields 0 g)) new_processor =
      (None, new_processor)" for g
    by (simp add: lookupInteraction_def get_pending_def new_processor_def split: option.splits)
  have dropped: "serve (\<lambda>p. p) ?deps 5 ?srv ?req = (Response 200 ''ok'', ?srv\<lparr>parsed := 1\<rparr>, [])"
    using unmatched_after_is_dropped[where req = ?req and srv = ?srv and deps = ?deps
        and f = ?f and sha = "\<lambda>p. p" and now = 5] tok miss
    by (simp add: js_truthy_def)
  have thrown: "serve (\<lambda>p. p) ?deps 5 ?srv (?req\<lparr>raw_body := JsonValue ?n\<rparr>) =
      (Response 500 ''internal_error'', ?srv\<lparr>parsed := 1\<rparr>, [])"
    using unmatched_after_is_dropped[where req = "?req\<lparr>raw_body := JsonValue ?n\<rparr>"
        and srv = ?srv and deps = ?deps and f = ?n and sha = "\<lambda>p. p" and now = 5] tok' miss
    by (simp add: js_truthy_def)
  show ?thesis
    unfolding Let_def using tok dropped thrown by simp
qed

text \<open>
  C3 as stated fails for an after event that resolves no pending interaction: with no
  workspace folder open, with a \<^verbatim>\<open>text\<close> that is a number, and with the body \<^verbatim>\<open>null\<close>, the
  handler throws, nothing is written, and the event source is answered 500.
\<close>

theorem after_without_workspace_counterexample:
  "(let srv = \<lparr>token = ''secret'', processor = new_processor, parsed = 0\<rparr>;
        req = \<lparr>req_method = ''POST'', headers = [''x-odam-hook-token'' \<mapsto> ''secret''],
               url_pathname = ''/hook/after'',
               raw_body = JsonValue [''text'' \<mapsto> JString ''done'']\<rparr>
    in fst (lookupInteraction
              (as_HookResponsePayload (parse_fields 0 [''text'' \<mapsto> JString ''done'']))
              (processor srv)) = None \<and>
       fst (serve (\<lambda>p. p)
              \<lparr>workspaceProvider = None, updater_rejects = False, has_logger = False,
               has_statusBar = False, deps_userId = None\<rparr> 5 srv req) =
         Response 500 ''internal_error'' \<and>
       fst (serve (\<lambda>p. p)
              \<lparr>workspaceProvider = Some ''/w'', updater_rejects = False, has_logger = False,
               has_statusBar = False, deps_userId = None\<rparr> 5 srv
              (req\<lparr>raw_body := JsonValue [''text'' \<mapsto> JNumber 5]\<rparr>)) =
         Response 500 ''internal_error'' \<and>
       fst (serve (\<lambda>p. p)
              \<lparr>workspaceProvider = Some ''/w'', updater_rejects = False, has_logger = False,
               has_statusBar = False, deps_userId = None\<rparr> 5 srv
              (req\<lparr>raw_body := JsonNull\<rparr>)) =
         Response 500 ''internal_error'')"
  by (simp add: Let_def serve_def handleRequest_def validateToken_def answer_def
      handleAfterResponse_def lookupInteraction_def get_pending_def new_processor_def
      as_HookResponsePayload_def parse_fields_def trimmed_def js_truthy_def)

text \<open>
  C4, as the code has it. The token is read from the header \<^verbatim>\<open>x-odam-hook-token\<close> and
  must equal the server's token. A request without a matching token is answered 401 when
  it is a POST and 405 otherwise (the method is tested first); either way the processor's
  pending state is unchanged and no collaborator is called, whatever the path and body.
\<close>

theorem unauthorized_request_rejected:
  "(validateToken tok req \<longleftrightarrow> tok \<noteq> [] \<and> headers req ''x-odam-hook-token'' = Some tok) \<and>
   (\<not> validateToken (token srv) req \<longrightarrow>
      serve sha deps now srv req =
        (if req_method req = ''POST'' then Response 401 ''unauthorized''
         else Response 405 ''method_not_allowed'', srv, []))"
proof
  show "validateToken tok req \<longleftrightarrow> tok \<noteq> [] \<and> headers req ''x-odam-hook-token'' = Some tok"
    by (auto simp: validateToken_def split: option.splits)
next
  show "\<not> validateToken (token srv) req \<longrightarrow>
      serve sha deps now srv req =
        (if req_method req = ''POST'' then Response 401 ''unauthorized''
         else Response 405 ''method_not_allowed'', srv, [])"
    by (simp add: serve_def handleRequest_def)
qed

theorem unauthorized_request_rejected_witness:
  "(let srv = \<lparr>token = ''secret'',
               processor = fst (snd (handleBeforePrompt
                 \<lparr>workspaceProvider = Some ''/w'', updater_rejects = False, has_logger = False,
                  has_statusBar = False, deps_userId = None\<rparr> 1
                 (Some \<lparr>conversation_id = Some (JString ''c''),
                        generation_id = Some (JString ''g''),
                        prompt = Some (JString ''hello''), model_name = None\<rparr>)
                 new_processor)),
               parsed = 1\<rparr>;
        deps = \<lparr>workspaceProvider = Some ''/w'', updater_rejects = False, has_logger = False,
                has_statusBar = False, deps_userId = None\<rparr>;
        req = \<lparr>req_method = ''POST'', headers = [''x-odam-hook-token'' \<mapsto> ''guess''],
               url_pathname = ''/hook/after'',
               raw_body = JsonValue [''text'' \<mapsto> JString ''done'',
                                     ''generation_id'' \<mapsto> JString ''g'']\<rparr>
    in \<not> validateToken (token srv) req \<and>
       serve (\<lambda>p. p) deps 5 srv req = (Response 401 ''unauthorized'', srv, []))"
  using unauthorized_request_rejected
    [of "''secret''"
        "\<lparr>req_method = ''POST'', headers = [''x-odam-hook-token'' \<mapsto> ''guess''],
          url_pathname = ''/hook/after'',
          raw_body = JsonValue [''text'' \<mapsto> JString ''done'',
                                     ''generation_id'' \<mapsto> JString ''g'']\<rparr>"
        "\<lparr>token = ''secret'',
               processor = fst (snd (handleBeforePrompt
                 \<lparr>workspaceProvider = Some ''/w'', updater_rejects = False, has_logger = False,
                  has_statusBar = False, deps_userId = None\<rparr> 1
                 (Some \<lparr>conversation_id = Some (JString ''c''),
                        generation_id = Some (JString ''g''),
                        prompt = Some (JString ''hello''), model_name = None\<rparr>)
                 new_processor)),
               parsed = 1\<rparr>"
        "\<lambda>p. p"
        "\<lparr>workspaceProvider = Some ''/w'', updater_rejects = False, has_logger = False,
          has_statusBar = False, deps_userId = None\<rparr>" 5]
  by (simp add: Let_def)

text \<open>
  C4 as stated fails twice: a request that is not a POST is answered 405 although its
  token is missing, and a POST that carries the right token in a header named
  \<^verbatim>\<open>X-Hook-Token\<close> is answered 401.
\<close>

theorem token_check_counterexample:
  "(let srv = \<lparr>token = ''secret'', processor = new_processor, parsed = 0\<rparr>;
        deps = \<lparr>workspaceProvider = Some ''/w'', updater_rejects = False, has_logger = False,
                has_statusBar = False, deps_userId = None\<rparr>
    in fst (serve (\<lambda>p. p) deps 5 srv
              \<lparr>req_method = ''GET'', headers = Map.empty,
               url_pathname = ''/hook/before'', raw_body = JsonValue [''prompt'' \<mapsto> JString ''hi'']\<rparr>)
         = Response 405 ''method_not_allowed'' \<and>
       fst (serve (\<lambda>p. p) deps 5 srv
              \<lparr>req_method = ''POST'', headers = [''x-hook-token'' \<mapsto> ''secret''],
               url_pathname = ''/hook/before'', raw_body = JsonValue [''prompt'' \<mapsto> JString ''hi'']\<rparr>)
         = Response 401 ''unauthorized'')"
  by (simp add: Let_def serve_def handleRequest_def validateToken_def)

section \<open>Properties of the enhancement engine\<close>

text \<open>
  C5, as the code has it. An entity is Successful iff its status is \<open>success\<close> and its
  test status is \<open>passed\<close>, absent or the empty string (the code tests
  \<^verbatim>\<open>!props.test_status\<close>); Problematic iff its status is \<open>failed\<close>, its outcome is
  \<open>regression\<close> or its test status is \<open>failed\<close>; an EffectiveSolution iff it is Successful
  and its outcome is \<open>implemented\<close>, \<open>bug_fixed\<close> or \<open>optimized\<close>.
\<close>

theorem classification_predicates:
  "(e \<in> set (findSuccessfulArtifacts es) \<longleftrightarrow>
      e \<in> set es \<and> properties e ''status'' = Some ''success'' \<and>
      (properties e ''test_status'' = Some ''passed'' \<or>
       properties e ''test_status'' = None \<or> properties e ''test_status'' = Some [])) \<and>
   (e \<in> set (findProblematicArtifacts es) \<longleftrightarrow>
      e \<in> set es \<and>
      (properties e ''status'' = Some ''failed'' \<or>
       properties e ''outcome'' = Some ''regression'' \<or>
       properties e ''test_status'' = Some ''failed'')) \<and>
   (e \<in> set (findEffectiveSolutions es) \<longleftrightarrow>
      e \<in> set (findSuccessfulArtifacts es) \<and>
      (properties e ''outcome'' = Some ''implemented'' \<or>
       properties e ''outcome'' = Some ''bug_fixed'' \<or>
       properties e ''outcome'' = Some ''optimized''))"
proof -
  have absent: "\<not> truthy v \<longleftrightarrow> v = None \<or> v = Some []" for v
    by (cases v) (simp_all add: truthy_def)
  show ?thesis
    by (auto simp: findSuccessfulArtifacts_def findProblematicArtifacts_def
        findEffectiveSolutions_def Let_def absent)
qed

theorem classification_predicates_witness:
  "(let a = \<lparr>entity_id = ''1'', name = ''A'', category = [],
              properties = [''status'' \<mapsto> ''success'', ''test_status'' \<mapsto> ''passed'',
                            ''outcome'' \<mapsto> ''bug_fixed''],
              confidence = 0\<rparr>;
        b = \<lparr>entity_id = ''2'', name = ''B'', category = [],
              properties = [''status'' \<mapsto> ''failed''], confidence = 0\<rparr>
    in a \<in> set (findSuccessfulArtifacts [a, b]) \<and> a \<in> set (findEffectiveSolutions [a, b]) \<and>
       a \<notin> set (findProblematicArtifacts [a, b]) \<and>
       b \<in> set (findProblematicArtifacts [a, b]) \<and> b \<notin> set (findSuccessfulArtifacts [a, b]))"
  using classification_predicates
    [of "\<lparr>entity_id = ''1'', name = ''A'', category = [],
              properties = [''status'' \<mapsto> ''success'', ''test_status'' \<mapsto> ''passed'',
                            ''outcome'' \<mapsto> ''bug_fixed''],
              confidence = 0\<rparr>"
        "[\<lparr>entity_id = ''1'', name = ''A'', category = [],
              properties = [''status'' \<mapsto> ''success'', ''test_status'' \<mapsto> ''passed'',
                            ''outcome'' \<mapsto> ''bug_fixed''],
              confidence = 0\<rparr>,
          \<lparr>entity_id = ''2'', name = ''B'', category = [],
              properties = [''status'' \<mapsto> ''failed''], confidence = 0\<rparr>]"]
    classification_predicates
    [of "\<lparr>entity_id = ''2'', name = ''B'', category = [],
              properties = [''status'' \<mapsto> ''failed''], confidence = 0\<rparr>"
        "[\<lparr>entity_id = ''1'', name = ''A'', category = [],
              properties = [''status'' \<mapsto> ''success'', ''test_status'' \<mapsto> ''passed'',
                            ''outcome'' \<mapsto> ''bug_fixed''],
              confidence = 0\<rparr>,
          \<lparr>entity_id = ''2'', name = ''B'', category = [],
              properties = [''status'' \<mapsto> ''failed''], confidence = 0\<rparr>]"]
  by (simp add: Let_def)

text \<open>
  C5 as stated fails for a test status that is present and empty: the entity is
  classified Successful although its test status is neither \<open>passed\<close> nor absent.
\<close>

theorem empty_test_status_counterexample:
  "(let e = \<lparr>entity_id = ''1'', name = ''A'', category = [],
              properties = [''status'' \<mapsto> ''success'', ''test_status'' \<mapsto> []],
              confidence = 0\<rparr>
    in e \<in> set (findSuccessfulArtifacts [e]) \<and>
       properties e ''test_status'' \<noteq> Some ''passed'' \<and>
       properties e ''test_status'' \<noteq> None)"
  by (simp add: Let_def findSuccessfulArtifacts_def truthy_def)

lemma lower_technical_profile: "toLowerCase ''Technical Profile'' = ''technical profile''"
  by code_simp

lemma lower_proven_solutions: "toLowerCase ''Proven Solutions'' = ''proven solutions''"
  by code_simp

lemma lower_known_issues: "toLowerCase ''Known Issues'' = ''known issues''"
  by code_simp

lemma take_length_le:
  assumes "take (length sub) xs = sub"
  shows "length sub \<le> length xs"
proof -
  have "length (take (length sub) xs) = min (length sub) (length xs)" by simp
  with assms have "length sub = min (length sub) (length xs)" by simp
  then show ?thesis by linarith
qed

lemma str_includes_length: "str_includes s sub \<Longrightarrow> length sub \<le> length s"
proof (induction s)
  case Nil
  then show ?case by simp
next
  case (Cons c cs)
  from Cons.prems have "take (length sub) (c # cs) = sub \<or> str_includes cs sub"
    by simp
  then show ?case
  proof
    assume "take (length sub) (c # cs) = sub"
    then show ?thesis by (rule take_length_le)
  next
    assume "str_includes cs sub"
    then have "length sub \<le> length cs" by (rule Cons.IH)
    then show ?thesis by simp
  qed
qed

text \<open>The section that heads the output has \<open>technical profile\<close> in its title.\<close>

lemma tech_title:
  "str_includes
     (toLowerCase (title (case List.find (\<lambda>s. str_includes (toLowerCase (title s)) ''technical profile'') xs of
         Some s \<Rightarrow> s | None \<Rightarrow> \<lparr>title = ''Technical Profile'', items = []\<rparr>)))
     ''technical profile''"
proof (cases "List.find (\<lambda>s. str_includes (toLowerCase (title s)) ''technical profile'') xs")
  case None
  then show ?thesis by (simp add: lower_technical_profile)
next
  case (Some s)
  then have "str_includes (toLowerCase (title s)) ''technical profile''"
    by (auto simp: find_Some_iff)
  with Some show ?thesis by simp
qed

text \<open>
  What \<open>groupByCategory\<close> returns: it throws as soon as a category names a member of
  \<^verbatim>\<open>Object.prototype\<close>; otherwise the groups are the categories in the order of their
  first occurrence, each with its artifacts in their original order.
\<close>

lemma categoryOf_nonempty: "categoryOf k a \<noteq> []"
  by (simp add: categoryOf_def orElse_def truthy_def split: option.splits)

lemma group_loop_throws:
  "\<exists>a \<in> set xs. categoryOf k a \<in> set object_prototype_names \<Longrightarrow>
   group_loop acc k xs = Inl PushIsNotAFunction"
  by (induction xs arbitrary: acc) auto

lemma group_loop_folds:
  "\<forall>a \<in> set xs. categoryOf k a \<notin> set object_prototype_names \<Longrightarrow>
   group_loop acc k xs = Inr (foldl (\<lambda>grouped a. push_group grouped (categoryOf k a) a) acc xs)"
  by (induction xs arbitrary: acc) auto

lemma push_group_map:
  "distinct ks \<Longrightarrow>
   push_group (map (\<lambda>c. (c, h c)) ks) c a =
     (if c \<in> set ks then map (\<lambda>c'. (c', if c' = c then h c' @ [a] else h c')) ks
      else map (\<lambda>c. (c, h c)) ks @ [(c, [a])])"
  by (induction ks) auto

lemma foldl_push_group:
  "foldl (\<lambda>grouped a. push_group grouped (g a) a) [] xs =
     map (\<lambda>c. (c, filter (\<lambda>a. g a = c) xs)) (rev (remdups (rev (map g xs))))"
proof (induction xs rule: rev_induct)
  case Nil
  then show ?case by simp
next
  case (snoc a xs)
  let ?ks = "rev (remdups (rev (map g xs)))"
  have d: "distinct ?ks" by simp
  have s: "set ?ks = g ` set xs" by simp
  have ks: "rev (remdups (rev (map g (xs @ [a])))) = (if g a \<in> g ` set xs then ?ks else ?ks @ [g a])"
    by simp
  have "foldl (\<lambda>grouped a. push_group grouped (g a) a) [] (xs @ [a]) =
      push_group (map (\<lambda>c. (c, filter (\<lambda>a. g a = c) xs)) ?ks) (g a) a"
    by (simp add: snoc.IH)
  also have "\<dots> =
      (if g a \<in> set ?ks
       then map (\<lambda>c'. (c', if c' = g a then filter (\<lambda>a'. g a' = c') xs @ [a]
                            else filter (\<lambda>a'. g a' = c') xs)) ?ks
       else map (\<lambda>c. (c, filter (\<lambda>a. g a = c) xs)) ?ks @ [(g a, [a])])"
    by (rule push_group_map[OF d])
  also have "\<dots> = map (\<lambda>c. (c, filter (\<lambda>a'. g a' = c) (xs @ [a])))
      (if g a \<in> g ` set xs then ?ks else ?ks @ [g a])"
  proof (cases "g a \<in> g ` set xs")
    case True
    then show ?thesis unfolding s by auto
  next
    case False
    have none: "filter (\<lambda>a'. g a' = g a) xs = []"
    proof -
      have "g x \<noteq> g a" if "x \<in> set xs" for x
        using that False by (metis imageI)
      then show ?thesis by (simp add: filter_empty_conv)
    qed
    have other: "c \<noteq> g a" if "c \<in> set ?ks" for c
    proof
      assume "c = g a"
      with that have "g a \<in> set ?ks" by simp
      with False show False unfolding s by simp
    qed
    have same: "map (\<lambda>c. (c, filter (\<lambda>a'. g a' = c) (xs @ [a]))) ?ks =
        map (\<lambda>c. (c, filter (\<lambda>a'. g a' = c) xs)) ?ks"
    proof (rule map_cong[OF refl])
      fix c
      assume "c \<in> set ?ks"
      then have "g a \<noteq> c" using other by blast
      then show "(c, filter (\<lambda>a'. g a' = c) (xs @ [a])) = (c, filter (\<lambda>a'. g a' = c) xs)"
        by simp
    qed
    have last: "filter (\<lambda>a'. g a' = g a) (xs @ [a]) = [a]"
      using none by simp
    have "g a \<notin> set ?ks" using False unfolding s .
    then have "(if g a \<in> set ?ks
         then map (\<lambda>c'. (c', if c' = g a then filter (\<lambda>a'. g a' = c') xs @ [a]
                              else filter (\<lambda>a'. g a' = c') xs)) ?ks
         else map (\<lambda>c. (c, filter (\<lambda>a. g a = c) xs)) ?ks @ [(g a, [a])]) =
        map (\<lambda>c. (c, filter (\<lambda>a. g a = c) xs)) ?ks @ [(g a, [a])]"
      by (simp only: if_False)
    also have "\<dots> = map (\<lambda>c. (c, filter (\<lambda>a'. g a' = c) (xs @ [a]))) (?ks @ [g a])"
      unfolding map_append same using last by simp
    also have "\<dots> = map (\<lambda>c. (c, filter (\<lambda>a'. g a' = c) (xs @ [a])))
        (if g a \<in> g ` set xs then ?ks else ?ks @ [g a])"
      using False by (simp only: if_False)
    finally show ?thesis .
  qed
  finally show ?case unfolding ks .
qed

lemma groupByCategory_throws:
  "\<exists>a \<in> set xs. categoryOf k a \<in> set object_prototype_names \<Longrightarrow>
   groupByCategory xs k = Inl PushIsNotAFunction"
  unfolding groupByCategory_def by (rule group_loop_throws)

lemma groupByCategory_groups:
  assumes "\<forall>a \<in> set xs. categoryOf k a \<notin> set object_prototype_names"
  shows "groupByCategory xs k =
     Inr (map (\<lambda>c. (c, filter (\<lambda>a. categoryOf k a = c) xs))
            (rev (remdups (rev (map (categoryOf k) xs)))))"
  unfolding groupByCategory_def group_loop_folds[OF assms] foldl_push_group ..

lemma entry_label:
  "map (\<lambda>(category, artifacts).
          \<lparr>label = (if category = [] then d else category), item_values = r artifacts\<rparr>)
     (object_entries (map (\<lambda>c. (c, h c)) (rev (remdups (rev (map (categoryOf k) xs)))))) =
   map (\<lambda>(category, artifacts). \<lparr>label = category, item_values = r artifacts\<rparr>)
     (object_entries (map (\<lambda>c. (c, h c)) (rev (remdups (rev (map (categoryOf k) xs))))))"
proof (rule map_cong[OF refl])
  fix e
  assume "e \<in> set (object_entries (map (\<lambda>c. (c, h c)) (rev (remdups (rev (map (categoryOf k) xs))))))"
  then have "fst e \<in> categoryOf k ` set xs"
    by (auto simp: object_entries_def)
  then obtain x where "fst e = categoryOf k x" by auto
  then have "fst e \<noteq> []" by (simp add: categoryOf_nonempty)
  then show "(case e of (c, v) \<Rightarrow>
          \<lparr>label = (if c = [] then d else c), item_values = r v\<rparr>) =
      (case e of (c, v) \<Rightarrow> \<lparr>label = c, item_values = r v\<rparr>)"
    by (cases e) simp
qed

lemma emitted_distinct:
  assumes "str_includes t ''technical profile''"
  shows "distinct ([t] @ (if p then [''proven solutions''] else []) @ (if k then [''known issues''] else []))"
proof -
  have "17 \<le> length t" using str_includes_length[OF assms] by simp
  then have "t \<noteq> ''proven solutions''" "t \<noteq> ''known issues''" by auto
  then show ?thesis by simp
qed

lemma kept_all:
  "x \<in> set xs \<Longrightarrow> g x \<in> set (map g (em @ filter (\<lambda>s. g s \<notin> set (map g em)) xs))"
  by (cases "g x \<in> set (map g em)") auto

lemma kept_distinct:
  assumes "distinct (map g em)" and "distinct (map g xs)"
  shows "distinct (map g (em @ filter (\<lambda>s. g s \<notin> set (map g em)) xs))"
proof -
  have "distinct (map g (filter (\<lambda>s. g s \<notin> set (map g em)) xs))"
    using assms(2) by (rule distinct_map_filter)
  moreover have "set (map g em) \<inter> set (map g (filter (\<lambda>s. g s \<notin> set (map g em)) xs)) = {}"
  proof -
    have "y \<notin> set (map g em)" if "y \<in> set (map g (filter (\<lambda>s. g s \<notin> set (map g em)) xs))" for y
    proof -
      from that obtain s where "s \<in> set xs" "g s \<notin> set (map g em)" "y = g s"
        by auto
      then show ?thesis by simp
    qed
    then show ?thesis by blast
  qed
  ultimately show ?thesis
    using assms(1) by simp
qed

text \<open>
  C6, as the code has it. Without entities the response is returned as it is. With
  entities, grouping the Successful bucket by language throws a \<^verbatim>\<open>TypeError\<close> when a
  category names a member of \<^verbatim>\<open>Object.prototype\<close>. Otherwise the output starts with the
  technical-profile section: the first input section whose lower-cased title contains
  \<open>technical profile\<close>, else a new \<open>Technical Profile\<close>, with one item appended for every
  category of the Successful bucket (the array-index categories first, in numeric order,
  then the others by first occurrence). Then come a new \<open>Proven Solutions\<close> section iff
  the EffectiveSolution bucket is not empty and a new \<open>Known Issues\<close> section iff the
  Problematic bucket is not empty. Then follow, in their original order, the input
  sections whose lower-cased titles are none of those just emitted; an input section
  whose lower-cased title is one of them is left out, with its items. Every input title
  is in the output up to case, and the output has no title twice (up to case) whenever
  the input has none twice.
\<close>

theorem enhanced_section_list:
  "(let lower = (\<lambda>s :: Section. toLowerCase (title s));
        succ = findSuccessfulArtifacts (entities cm);
        eff = findEffectiveSolutions (entities cm);
        prob = findProblematicArtifacts (entities cm);
        found = (case List.find (\<lambda>s. str_includes (lower s) ''technical profile'') (sections cm) of
                   Some s \<Rightarrow> s
                 | None \<Rightarrow> \<lparr>title = ''Technical Profile'', items = []\<rparr>);
        languages = map (\<lambda>c. (c, filter (\<lambda>a. categoryOf ''language'' a = c) succ))
                      (rev (remdups (rev (map (categoryOf ''language'') succ))));
        tech = found\<lparr>items := items found @
                 map (\<lambda>(c, artifacts).
                        \<lparr>label = c,
                         item_values = map (\<lambda>a. formatArtifactForContext f a True) artifacts\<rparr>)
                   (object_entries languages)\<rparr>;
        emitted = [tech] @
          (if eff \<noteq> []
           then [\<lparr>title = ''Proven Solutions'',
                  items = [\<lparr>label = ''Solutions'',
                            item_values = map (\<lambda>a. formatArtifactForContext f a True) eff\<rparr>]\<rparr>]
           else []) @
          (if prob \<noteq> []
           then [\<lparr>title = ''Known Issues'',
                  items = [\<lparr>label = ''Problems'',
                            item_values = map (\<lambda>a. formatArtifactForContext f a False) prob\<rparr>]\<rparr>]
           else []);
        taken = [lower found] @ (if eff \<noteq> [] then [''proven solutions''] else []) @
                (if prob \<noteq> [] then [''known issues''] else []);
        rest = filter (\<lambda>s. lower s \<notin> set taken) (sections cm)
    in (entities cm = [] \<longrightarrow> enhanceContext f cm = Inr cm) \<and>
       (entities cm \<noteq> [] \<and>
        (\<exists>a \<in> set succ. categoryOf ''language'' a \<in> set object_prototype_names) \<longrightarrow>
          enhanceContext f cm = Inl PushIsNotAFunction) \<and>
       (entities cm \<noteq> [] \<and>
        (\<forall>a \<in> set succ. categoryOf ''language'' a \<notin> set object_prototype_names) \<longrightarrow>
          enhanceContext f cm = Inr (cm\<lparr>sections := emitted @ rest\<rparr>) \<and>
          set (map lower (sections cm)) \<subseteq> set (map lower (emitted @ rest)) \<and>
          (distinct (map lower (sections cm)) \<longrightarrow> distinct (map lower (emitted @ rest)))))"
proof -
  define lower where "lower = (\<lambda>s :: Section. toLowerCase (title s))"
  define succ where "succ = findSuccessfulArtifacts (entities cm)"
  define eff where "eff = findEffectiveSolutions (entities cm)"
  define prob where "prob = findProblematicArtifacts (entities cm)"
  define found where
    "found = (case List.find (\<lambda>s. str_includes (lower s) ''technical profile'') (sections cm) of
                Some s \<Rightarrow> s
              | None \<Rightarrow> \<lparr>title = ''Technical Profile'', items = []\<rparr>)"
  define languages where
    "languages = map (\<lambda>c. (c, filter (\<lambda>a. categoryOf ''language'' a = c) succ))
                   (rev (remdups (rev (map (categoryOf ''language'') succ))))"
  define tech where
    "tech = found\<lparr>items := items found @
              map (\<lambda>(c, artifacts).
                     \<lparr>label = c,
                      item_values = map (\<lambda>a. formatArtifactForContext f a True) artifacts\<rparr>)
                (object_entries languages)\<rparr>"
  define emitted where
    "emitted = [tech] @
       (if eff \<noteq> []
        then [\<lparr>title = ''Proven Solutions'',
               items = [\<lparr>label = ''Solutions'',
                         item_values = map (\<lambda>a. formatArtifactForContext f a True) eff\<rparr>]\<rparr>]
        else []) @
       (if prob \<noteq> []
        then [\<lparr>title = ''Known Issues'',
               items = [\<lparr>label = ''Problems'',
                         item_values = map (\<lambda>a. formatArtifactForContext f a False) prob\<rparr>]\<rparr>]
        else [])"
  define taken where
    "taken = [lower found] @ (if eff \<noteq> [] then [''proven solutions''] else []) @
             (if prob \<noteq> [] then [''known issues''] else [])"
  define rest where "rest = filter (\<lambda>s. lower s \<notin> set taken) (sections cm)"
  have lowered: "map lower emitted = taken"
    by (simp add: emitted_def taken_def tech_def lower_def lower_proven_solutions
        lower_known_issues)
  have none: "enhanceContext f cm = Inr cm" if "entities cm = []"
    using that by (simp add: enhanceContext_def)
  have throws: "enhanceContext f cm = Inl PushIsNotAFunction"
    if ne: "entities cm \<noteq> []"
      and bad: "\<exists>a \<in> set succ. categoryOf ''language'' a \<in> set object_prototype_names"
  proof -
    from bad have "succ \<noteq> []" by auto
    moreover have "groupByCategory succ ''language'' = Inl PushIsNotAFunction"
      using bad by (rule groupByCategory_throws)
    ultimately show ?thesis
      using ne by (simp add: enhanceContext_def buildEnhancedSections_def succ_def)
  qed
  have built: "enhanceContext f cm = Inr (cm\<lparr>sections := emitted @ rest\<rparr>)"
    if ne: "entities cm \<noteq> []"
      and ok: "\<forall>a \<in> set succ. categoryOf ''language'' a \<notin> set object_prototype_names"
  proof -
    have grouped: "(if succ \<noteq> [] then groupByCategory succ ''language'' else Inr []) =
        Inr languages"
      unfolding groupByCategory_groups[OF ok] languages_def by simp
    have labels:
      "map (\<lambda>(category, artifacts).
              \<lparr>label = (if category = [] then ''Languages / DSL'' else category),
               item_values = map (\<lambda>a. formatArtifactForContext f a True) artifacts\<rparr>)
         (object_entries languages) =
       map (\<lambda>(c, artifacts).
              \<lparr>label = c,
               item_values = map (\<lambda>a. formatArtifactForContext f a True) artifacts\<rparr>)
         (object_entries languages)"
      unfolding languages_def by (rule entry_label)
    have "buildEnhancedSections f (sections cm) succ prob eff =
        Inr (emitted @
             filter (\<lambda>s. toLowerCase (title s) \<notin> set (map (\<lambda>s. toLowerCase (title s)) emitted))
               (sections cm))"
      unfolding buildEnhancedSections_def grouped sum.case Let_def labels emitted_def tech_def
        found_def lower_def
      by (rule refl)
    then have "buildEnhancedSections f (sections cm) succ prob eff = Inr (emitted @ rest)"
      unfolding rest_def lowered[symmetric] lower_def .
    then show ?thesis
      using ne by (simp add: enhanceContext_def succ_def prob_def eff_def)
  qed
  have em_distinct: "distinct (map lower emitted)"
    unfolding lowered taken_def
    by (rule emitted_distinct) (simp add: found_def lower_def tech_title)
  have rest: "rest = filter (\<lambda>s. lower s \<notin> set (map lower emitted)) (sections cm)"
    unfolding rest_def lowered ..
  have kept: "set (map lower (sections cm)) \<subseteq> set (map lower (emitted @ rest))"
    unfolding rest using kept_all[of _ "sections cm" lower emitted] by auto
  have dist: "distinct (map lower (emitted @ rest))" if "distinct (map lower (sections cm))"
    unfolding rest by (rule kept_distinct[OF em_distinct that])
  show ?thesis
    unfolding Let_def lower_def[symmetric] succ_def[symmetric] eff_def[symmetric]
      prob_def[symmetric] found_def[symmetric] languages_def[symmetric] tech_def[symmetric]
      emitted_def[symmetric] taken_def[symmetric] rest_def[symmetric]
    using none throws built kept dist by blast
qed

theorem enhanced_section_list_witness:
  "(let cm = \<lparr>sections = [\<lparr>title = ''Notes'', items = []\<rparr>],
               entities =
                 [\<lparr>entity_id = ''1'', name = ''A'', category = [],
                   properties = [''status'' \<mapsto> ''success'', ''test_status'' \<mapsto> ''passed'',
                                 ''outcome'' \<mapsto> ''bug_fixed''],
                   confidence = 0\<rparr>,
                  \<lparr>entity_id = ''2'', name = ''B'', category = [],
                   properties = [''status'' \<mapsto> ''failed''], confidence = 0\<rparr>],
               context_text = [], entities_total = None\<rparr>;
        out =
          [\<lparr>title = ''Technical Profile'',
            items = [\<lparr>label = ''Other'',
                      item_values =
                        [''A [success] (status: success, outcome: bug_fixed, test_status: passed)'']\<rparr>]\<rparr>,
           \<lparr>title = ''Proven Solutions'',
            items = [\<lparr>label = ''Solutions'',
                      item_values =
                        [''A [success] (status: success, outcome: bug_fixed, test_status: passed)'']\<rparr>]\<rparr>,
           \<lparr>title = ''Known Issues'',
            items = [\<lparr>label = ''Problems'', item_values = [''B [failed] (status: failed)'']\<rparr>]\<rparr>,
           \<lparr>title = ''Notes'', items = []\<rparr>]
    in entities cm \<noteq> [] \<and>
       (\<forall>a \<in> set (findSuccessfulArtifacts (entities cm)).
          categoryOf ''language'' a \<notin> set object_prototype_names) \<and>
       distinct (map (\<lambda>s. toLowerCase (title s)) (sections cm)) \<and>
       enhanceContext (\<lambda>r. []) cm = Inr (cm\<lparr>sections := out\<rparr>) \<and>
       distinct (map (\<lambda>s. toLowerCase (title s)) out))"
proof -
  define cm where "cm = \<lparr>sections = [\<lparr>title = ''Notes'', items = []\<rparr>],
               entities =
                 [\<lparr>entity_id = ''1'', name = ''A'', category = [],
                   properties = [''status'' \<mapsto> ''success'', ''test_status'' \<mapsto> ''passed'',
                                 ''outcome'' \<mapsto> ''bug_fixed''],
                   confidence = 0\<rparr>,
                  \<lparr>entity_id = ''2'', name = ''B'', category = [],
                   properties = [''status'' \<mapsto> ''failed''], confidence = 0\<rparr>],
               context_text = [], entities_total = None\<rparr>"
  define out where "out =
          [\<lparr>title = ''Technical Profile'',
            items = [\<lparr>label = ''Other'',
                      item_values =
                        [''A [success] (status: success, outcome: bug_fixed, test_status: passed)'']\<rparr>]\<rparr>,
           \<lparr>title = ''Proven Solutions'',
            items = [\<lparr>label = ''Solutions'',
                      item_values =
                        [''A [success] (status: success, outcome: bug_fixed, test_status: passed)'']\<rparr>]\<rparr>,
           \<lparr>title = ''Known Issues'',
            items = [\<lparr>label = ''Problems'', item_values = [''B [failed] (status: failed)'']\<rparr>]\<rparr>,
           \<lparr>title = ''Notes'', items = []\<rparr>]"
  have ne: "entities cm \<noteq> []"
    by (simp add: cm_def)
  have ok: "\<forall>a \<in> set (findSuccessfulArtifacts (entities cm)).
      categoryOf ''language'' a \<notin> set object_prototype_names"
    unfolding cm_def by code_simp
  have inp: "distinct (map (\<lambda>s. toLowerCase (title s)) (sections cm))"
    by (simp add: cm_def)
  obtain res where res: "enhanceContext (\<lambda>r. []) cm = Inr (cm\<lparr>sections := res\<rparr>)"
    and res_distinct: "distinct (map (\<lambda>s. toLowerCase (title s)) res)"
    using enhanced_section_list[of cm "\<lambda>r. []"] ne ok inp unfolding Let_def by blast
  have "map_sum (\<lambda>e. e) sections (enhanceContext (\<lambda>r. []) cm) = Inr out"
    unfolding cm_def out_def by code_simp
  with res have "res = out" by simp
  with res res_distinct have run: "enhanceContext (\<lambda>r. []) cm = Inr (cm\<lparr>sections := out\<rparr>)"
    and out_distinct: "distinct (map (\<lambda>s. toLowerCase (title s)) out)"
    by simp_all
  show ?thesis
    unfolding Let_def cm_def[symmetric] out_def[symmetric]
    using ne ok inp run out_distinct by blast
qed

text \<open>
  C6 as stated fails in three ways. An input that has a title twice keeps both sections,
  since only the titles of the newly emitted sections are looked at. An input section
  titled \<open>known issues\<close> is left out with its items when a new \<open>Known Issues\<close> section is
  emitted, so its title is in the output only up to case. And a Successful entity of
  category \<open>constructor\<close> makes the enhancement throw, so that nothing is emitted.
\<close>

theorem duplicate_titles_counterexample:
  "map_sum (\<lambda>e. e) sections
     (enhanceContext (\<lambda>r. [])
        \<lparr>sections = [\<lparr>title = ''Notes'', items = []\<rparr>, \<lparr>title = ''Notes'', items = []\<rparr>],
         entities = [\<lparr>entity_id = ''1'', name = ''A'', category = [],
                      properties = Map.empty, confidence = 0\<rparr>],
         context_text = [], entities_total = None\<rparr>) =
   Inr [\<lparr>title = ''Technical Profile'', items = []\<rparr>,
        \<lparr>title = ''Notes'', items = []\<rparr>, \<lparr>title = ''Notes'', items = []\<rparr>] \<and>
   \<not> distinct (map (\<lambda>s. toLowerCase (title s))
         [\<lparr>title = ''Technical Profile'', items = []\<rparr>,
          \<lparr>title = ''Notes'', items = []\<rparr>, \<lparr>title = ''Notes'', items = []\<rparr>]) \<and>
   map_sum (\<lambda>e. e) sections
     (enhanceContext (\<lambda>r. [])
        \<lparr>sections = [\<lparr>title = ''known issues'',
                       items = [\<lparr>label = ''Flaky'', item_values = [''test x'']\<rparr>]\<rparr>],
         entities = [\<lparr>entity_id = ''2'', name = ''B'', category = [],
                      properties = [''status'' \<mapsto> ''failed''], confidence = 0\<rparr>],
         context_text = [], entities_total = None\<rparr>) =
   Inr [\<lparr>title = ''Technical Profile'', items = []\<rparr>,
        \<lparr>title = ''Known Issues'',
         items = [\<lparr>label = ''Problems'',
                   item_values = [''B [failed] (status: failed)'']\<rparr>]\<rparr>] \<and>
   map_sum (\<lambda>e. e) sections
     (enhanceContext (\<lambda>r. [])
        \<lparr>sections = [],
         entities = [\<lparr>entity_id = ''3'', name = ''C'', category = ''constructor'',
                      properties = [''status'' \<mapsto> ''success''], confidence = 0\<rparr>],
         context_text = [], entities_total = None\<rparr>) =
   Inl PushIsNotAFunction"
proof (intro conjI)
  show "map_sum (\<lambda>e. e) sections
     (enhanceContext (\<lambda>r. [])
        \<lparr>sections = [\<lparr>title = ''Notes'', items = []\<rparr>, \<lparr>title = ''Notes'', items = []\<rparr>],
         entities = [\<lparr>entity_id = ''1'', name = ''A'', category = [],
                      properties = Map.empty, confidence = 0\<rparr>],
         context_text = [], entities_total = None\<rparr>) =
   Inr [\<lparr>title = ''Technical Profile'', items = []\<rparr>,
        \<lparr>title = ''Notes'', items = []\<rparr>, \<lparr>title = ''Notes'', items = []\<rparr>]"
    by code_simp
  show "\<not> distinct (map (\<lambda>s. toLowerCase (title s))
         [\<lparr>title = ''Technical Profile'', items = []\<rparr>,
          \<lparr>title = ''Notes'', items = []\<rparr>, \<lparr>title = ''Notes'', items = []\<rparr>])"
    by simp
  show "map_sum (\<lambda>e. e) sections
     (enhanceContext (\<lambda>r. [])
        \<lparr>sections = [\<lparr>title = ''known issues'',
                       items = [\<lparr>label = ''Flaky'', item_values = [''test x'']\<rparr>]\<rparr>],
         entities = [\<lparr>entity_id = ''2'', name = ''B'', category = [],
                      properties = [''status'' \<mapsto> ''failed''], confidence = 0\<rparr>],
         context_text = [], entities_total = None\<rparr>) =
   Inr [\<lparr>title = ''Technical Profile'', items = []\<rparr>,
        \<lparr>title = ''Known Issues'',
         items = [\<lparr>label = ''Problems'',
                   item_values = [''B [failed] (status: failed)'']\<rparr>]\<rparr>]"
    by code_simp
  show "map_sum (\<lambda>e. e) sections
     (enhanceContext (\<lambda>r. [])
        \<lparr>sections = [],
         entities = [\<lparr>entity_id = ''3'', name = ''C'', category = ''constructor'',
                      properties = [''status'' \<mapsto> ''success''], confidence = 0\<rparr>],
         context_text = [], entities_total = None\<rparr>) =
   Inl PushIsNotAFunction"
    by code_simp
qed

section \<open>Properties of the local cache\<close>

lemma cacheKey_prefix:
  "take 50 q' = take 50 q \<Longrightarrow> cacheKey sha u q' ws = cacheKey sha u q ws"
  by (simp add: cacheKey_def)

lemma get_hit:
  assumes "cache p (cacheKey sha (provider_userId p) q ws) = Some e"
    and "now - timestamp e < cacheTimeout"
  shows "getMemoryContext sha client now now' q ws p = (cached_context e, p, [])"
  using assms by (simp add: getMemoryContext_def Let_def)

lemma get_miss:
  assumes "cache p (cacheKey sha (provider_userId p) q ws) = None \<or>
           (\<exists>e. cache p (cacheKey sha (provider_userId p) q ws) = Some e \<and>
                \<not> now - timestamp e < cacheTimeout)"
  shows "getMemoryContext sha client now now' q ws p =
     (let sid = (if truthy ws then Some (getSessionId sha (orElse ws [])) else None);
          call = FetchMemoryContext q (provider_userId p) sid
      in case client q (provider_userId p) sid of
           Inl e \<Rightarrow> ([], p, [call])
         | Inr r \<Rightarrow>
             (result_context r,
              (if result_context r \<noteq> []
               then p\<lparr>cache := (cache p)(cacheKey sha (provider_userId p) q ws \<mapsto>
                       \<lparr>cached_context = result_context r, timestamp = now'\<rparr>)\<rparr>
               else p),
              [call]))"
  using assms by (auto simp: getMemoryContext_def Let_def split: sum.splits)

lemma get_userId: "provider_userId (fst (snd (getMemoryContext sha client now now' q ws p))) = provider_userId p"
  by (auto simp: getMemoryContext_def Let_def split: option.splits sum.splits if_splits)

text \<open>
  C7. A lookup that misses and fetches a context that is not empty stores it; a lookup
  for the same user, workspace and first 50 characters of the query, made while less
  than the timeout has passed since the store, returns the stored context without calling
  the client and leaves the provider as it is. A lookup that finds an entry as old as the
  timeout or older calls the client (a miss); the key stays in the map, the entry itself
  staying as it is when the fetch brings nothing, and no other key changes. \<open>clearCache\<close>
  empties the map.
\<close>

theorem cache_round_trip_and_lazy_expiry:
  "(\<forall>r. (cache p (cacheKey sha (provider_userId p) q ws) = None \<or>
          (\<exists>e. cache p (cacheKey sha (provider_userId p) q ws) = Some e \<and>
               \<not> now - timestamp e < cacheTimeout)) \<and>
         client q (provider_userId p)
           (if truthy ws then Some (getSessionId sha (orElse ws [])) else None) = Inr r \<and>
         result_context r \<noteq> [] \<and>
         take 50 q' = take 50 q \<and> t - now' < cacheTimeout \<longrightarrow>
         (let p1 = fst (snd (getMemoryContext sha client now now' q ws p))
          in getMemoryContext sha client' t t' q' ws p1 = (result_context r, p1, []))) \<and>
   (\<forall>e. cache p (cacheKey sha (provider_userId p) q ws) = Some e \<and>
         \<not> now - timestamp e < cacheTimeout \<longrightarrow>
         (let res = getMemoryContext sha client now now' q ws p
          in snd (snd res) =
               [FetchMemoryContext q (provider_userId p)
                  (if truthy ws then Some (getSessionId sha (orElse ws [])) else None)] \<and>
             cacheKey sha (provider_userId p) q ws \<in> dom (cache (fst (snd res))) \<and>
             (fst res = [] \<longrightarrow> cache (fst (snd res)) = cache p) \<and>
             (\<forall>k. k \<noteq> cacheKey sha (provider_userId p) q ws \<longrightarrow>
                  cache (fst (snd res)) k = cache p k))) \<and>
   cache (clearCache p) = Map.empty"
proof (intro conjI allI impI)
  fix r
  assume h: "(cache p (cacheKey sha (provider_userId p) q ws) = None \<or>
          (\<exists>e. cache p (cacheKey sha (provider_userId p) q ws) = Some e \<and>
               \<not> now - timestamp e < cacheTimeout)) \<and>
         client q (provider_userId p)
           (if truthy ws then Some (getSessionId sha (orElse ws [])) else None) = Inr r \<and>
         result_context r \<noteq> [] \<and>
         take 50 q' = take 50 q \<and> t - now' < cacheTimeout"
  define k where "k = cacheKey sha (provider_userId p) q ws"
  define p1 where "p1 = fst (snd (getMemoryContext sha client now now' q ws p))"
  have p1: "p1 = p\<lparr>cache := (cache p)(k \<mapsto> \<lparr>cached_context = result_context r, timestamp = now'\<rparr>)\<rparr>"
  proof -
    have miss: "cache p (cacheKey sha (provider_userId p) q ws) = None \<or>
           (\<exists>e. cache p (cacheKey sha (provider_userId p) q ws) = Some e \<and>
                \<not> now - timestamp e < cacheTimeout)"
      using h by blast
    show ?thesis
      unfolding p1_def get_miss[OF miss] k_def using h by (simp add: Let_def)
  qed
  have k2: "cacheKey sha (provider_userId p1) q' ws = k"
  proof -
    have "provider_userId p1 = provider_userId p" by (simp add: p1)
    moreover have "take 50 q' = take 50 q" using h by blast
    ultimately show ?thesis
      unfolding k_def by (simp only: cacheKey_prefix[of q' q])
  qed
  have "getMemoryContext sha client' t t' q' ws p1 =
      (cached_context \<lparr>cached_context = result_context r, timestamp = now'\<rparr>, p1, [])"
    by (rule get_hit) (use h in \<open>simp_all add: k2, simp_all add: p1\<close>)
  then show "let p1 = fst (snd (getMemoryContext sha client now now' q ws p))
          in getMemoryContext sha client' t t' q' ws p1 = (result_context r, p1, [])"
    by (simp add: Let_def p1_def)
next
  fix e
  assume h: "cache p (cacheKey sha (provider_userId p) q ws) = Some e \<and>
         \<not> now - timestamp e < cacheTimeout"
  then have miss: "cache p (cacheKey sha (provider_userId p) q ws) = None \<or>
           (\<exists>e. cache p (cacheKey sha (provider_userId p) q ws) = Some e \<and>
                \<not> now - timestamp e < cacheTimeout)"
    by blast
  define sid where "sid = (if truthy ws then Some (getSessionId sha (orElse ws [])) else None)"
  define k where "k = cacheKey sha (provider_userId p) q ws"
  have res: "getMemoryContext sha client now now' q ws p =
      (case client q (provider_userId p) sid of
         Inl e \<Rightarrow> ([], p, [FetchMemoryContext q (provider_userId p) sid])
       | Inr r \<Rightarrow>
           (result_context r,
            (if result_context r \<noteq> []
             then p\<lparr>cache := (cache p)(k \<mapsto>
                     \<lparr>cached_context = result_context r, timestamp = now'\<rparr>)\<rparr>
             else p),
            [FetchMemoryContext q (provider_userId p) sid]))"
    unfolding get_miss[OF miss] sid_def k_def Let_def by (rule refl)
  have present: "k \<in> dom (cache p)"
    using h by (auto simp: k_def)
  have "snd (snd (getMemoryContext sha client now now' q ws p)) =
          [FetchMemoryContext q (provider_userId p) sid] \<and>
        k \<in> dom (cache (fst (snd (getMemoryContext sha client now now' q ws p)))) \<and>
        (fst (getMemoryContext sha client now now' q ws p) = [] \<longrightarrow>
           cache (fst (snd (getMemoryContext sha client now now' q ws p))) = cache p) \<and>
        (\<forall>k'. k' \<noteq> k \<longrightarrow>
           cache (fst (snd (getMemoryContext sha client now now' q ws p))) k' = cache p k')"
  proof (cases "client q (provider_userId p) sid")
    case (Inl err)
    then show ?thesis using present by (simp add: res)
  next
    case (Inr r)
    then show ?thesis using present by (simp add: res)
  qed
  then show "let res = getMemoryContext sha client now now' q ws p
          in snd (snd res) =
               [FetchMemoryContext q (provider_userId p)
                  (if truthy ws then Some (getSessionId sha (orElse ws [])) else None)] \<and>
             cacheKey sha (provider_userId p) q ws \<in> dom (cache (fst (snd res))) \<and>
             (fst res = [] \<longrightarrow> cache (fst (snd res)) = cache p) \<and>
             (\<forall>k. k \<noteq> cacheKey sha (provider_userId p) q ws \<longrightarrow>
                  cache (fst (snd res)) k = cache p k)"
    unfolding Let_def sid_def k_def .
next
  show "cache (clearCache p) = Map.empty"
    by (simp add: clearCache_def)
qed

theorem cache_round_trip_and_lazy_expiry_witness:
  "(let remote = (\<lambda>q u s. Inr \<lparr>result_context = ''ctx'', memoriesFound = 1, codeMemory = None\<rparr>);
        down = (\<lambda>q u s. Inl ClientError);
        p1 = fst (snd (getMemoryContext (\<lambda>x. x) remote 0 5 ''hello'' None
                         \<lparr>provider_userId = ''u'', cache = Map.empty\<rparr>));
        late = getMemoryContext (\<lambda>x. x) down 70000 70001 ''hello'' None p1
    in cache p1 ''u:global:hello'' = Some \<lparr>cached_context = ''ctx'', timestamp = 5\<rparr> \<and>
       getMemoryContext (\<lambda>x. x) down 1000 1001 ''hello'' None p1 = (''ctx'', p1, []) \<and>
       snd (snd late) = [FetchMemoryContext ''hello'' ''u'' None] \<and>
       cache (fst (snd late)) = cache p1 \<and>
       cache (clearCache p1) = Map.empty)"
proof -
  let ?remote = "(\<lambda>q u s. Inr \<lparr>result_context = ''ctx'', memoriesFound = 1, codeMemory = None\<rparr>)
      :: string \<Rightarrow> string \<Rightarrow> string option \<Rightarrow> client_error + MemoryContextResult"
  let ?down = "(\<lambda>q u s. Inl ClientError)
      :: string \<Rightarrow> string \<Rightarrow> string option \<Rightarrow> client_error + MemoryContextResult"
  let ?p0 = "\<lparr>provider_userId = ''u'', cache = Map.empty\<rparr>"
  define p1 where "p1 = fst (snd (getMemoryContext (\<lambda>x. x) ?remote 0 5 ''hello'' None ?p0))"
  have key: "cacheKey (\<lambda>x. x) ''u'' ''hello'' None = ''u:global:hello''"
    by (simp add: cacheKey_def truthy_def orElse_def)
  have p1: "p1 = \<lparr>provider_userId = ''u'',
      cache = [''u:global:hello'' \<mapsto> \<lparr>cached_context = ''ctx'', timestamp = 5\<rparr>]\<rparr>"
    by (simp add: p1_def getMemoryContext_def key Let_def)
  have stored: "cache p1 ''u:global:hello'' = Some \<lparr>cached_context = ''ctx'', timestamp = 5\<rparr>"
    by (simp add: p1)
  have trip: "getMemoryContext (\<lambda>x. x) ?down 1000 1001 ''hello'' None p1 = (''ctx'', p1, [])"
    using cache_round_trip_and_lazy_expiry
      [where p = ?p0 and sha = "\<lambda>x. x" and q = "''hello''" and ws = None and now = 0
         and now' = 5 and client = ?remote and q' = "''hello''" and t = 1000 and t' = 1001
         and client' = ?down]
    unfolding p1_def[symmetric] by (simp add: Let_def truthy_def cacheTimeout_def)
  have expired: "snd (snd (getMemoryContext (\<lambda>x. x) ?down 70000 70001 ''hello'' None p1)) =
        [FetchMemoryContext ''hello'' ''u'' None] \<and>
      cache (fst (snd (getMemoryContext (\<lambda>x. x) ?down 70000 70001 ''hello'' None p1))) = cache p1"
    using cache_round_trip_and_lazy_expiry
      [where p = p1 and sha = "\<lambda>x. x" and q = "''hello''" and ws = None and now = 70000
         and now' = 70001 and client = ?down] stored
    by (simp add: Let_def truthy_def cacheTimeout_def key p1 getMemoryContext_def)
  have cleared: "cache (clearCache p1) = Map.empty"
    using cache_round_trip_and_lazy_expiry[where p = p1] by blast
  show ?thesis
    unfolding Let_def p1_def[symmetric] using stored trip expired cleared by blast
qed

lemma cache_nonempty_get:
  assumes "cache_nonempty p"
  shows "cache_nonempty (fst (snd (getMemoryContext sha client now now' q ws p)))"
proof (cases "cache p (cacheKey sha (provider_userId p) q ws) = None \<or>
           (\<exists>e. cache p (cacheKey sha (provider_userId p) q ws) = Some e \<and>
                \<not> now - timestamp e < cacheTimeout)")
  case True
  show ?thesis
    unfolding get_miss[OF True] Let_def using assms
    by (cases "client q (provider_userId p)
          (if truthy ws then Some (getSessionId sha (orElse ws [])) else None)")
       (simp_all add: cache_nonempty_def)
next
  case False
  then obtain e where "cache p (cacheKey sha (provider_userId p) q ws) = Some e"
    and "now - timestamp e < cacheTimeout"
    by auto
  then show ?thesis
    using assms by (simp add: get_hit)
qed

lemma cache_nonempty_clear: "cache_nonempty (clearCache p)"
  by (simp add: cache_nonempty_def clearCache_def)

lemma cache_nonempty_run:
  "cache_nonempty p \<Longrightarrow> cache_nonempty (provider_run sha client p ops)"
proof (induction ops arbitrary: p)
  case Nil
  then show ?case by simp
next
  case (Cons op ops)
  show ?case
  proof (cases op)
    case (Get now now' q ws)
    then show ?thesis
      using Cons.IH[OF cache_nonempty_get[OF Cons.prems]] by simp
  next
    case ClearCache
    then show ?thesis
      using Cons.IH[OF cache_nonempty_clear] by simp
  qed
qed

lemma fetched_iff_miss:
  "snd (snd (getMemoryContext sha client now now' q ws p)) \<noteq> [] \<longleftrightarrow>
     cache p (cacheKey sha (provider_userId p) q ws) = None \<or>
     (\<exists>e. cache p (cacheKey sha (provider_userId p) q ws) = Some e \<and>
          \<not> now - timestamp e < cacheTimeout)"
proof (cases "cache p (cacheKey sha (provider_userId p) q ws) = None \<or>
           (\<exists>e. cache p (cacheKey sha (provider_userId p) q ws) = Some e \<and>
                \<not> now - timestamp e < cacheTimeout)")
  case True
  have "snd (snd (getMemoryContext sha client now now' q ws p)) \<noteq> []"
    unfolding get_miss[OF True] Let_def
    by (cases "client q (provider_userId p)
          (if truthy ws then Some (getSessionId sha (orElse ws [])) else None)") simp_all
  with True show ?thesis by blast
next
  case False
  then obtain e where "cache p (cacheKey sha (provider_userId p) q ws) = Some e"
    and "now - timestamp e < cacheTimeout"
    by auto
  then have "snd (snd (getMemoryContext sha client now now' q ws p)) = []"
    by (simp add: get_hit)
  with False show ?thesis by blast
qed

lemma fetch_call:
  assumes "snd (snd (getMemoryContext sha client now now' q ws p)) \<noteq> []"
  shows "snd (snd (getMemoryContext sha client now now' q ws p)) =
    [FetchMemoryContext q (provider_userId p)
       (if truthy ws then Some (getSessionId sha (orElse ws [])) else None)]"
proof -
  have miss: "cache p (cacheKey sha (provider_userId p) q ws) = None \<or>
     (\<exists>e. cache p (cacheKey sha (provider_userId p) q ws) = Some e \<and>
          \<not> now - timestamp e < cacheTimeout)"
    using assms by (simp only: fetched_iff_miss)
  show ?thesis
    unfolding get_miss[OF miss] Let_def
    by (cases "client q (provider_userId p)
          (if truthy ws then Some (getSessionId sha (orElse ws [])) else None)") simp_all
qed

lemma empty_fetch_keeps_provider:
  assumes "snd (snd (getMemoryContext sha client now now' q ws p)) \<noteq> []"
    and "fst (getMemoryContext sha client now now' q ws p) = []"
  shows "fst (snd (getMemoryContext sha client now now' q ws p)) = p"
proof -
  have miss: "cache p (cacheKey sha (provider_userId p) q ws) = None \<or>
     (\<exists>e. cache p (cacheKey sha (provider_userId p) q ws) = Some e \<and>
          \<not> now - timestamp e < cacheTimeout)"
    using assms(1) by (simp only: fetched_iff_miss)
  show ?thesis
    using assms(2) unfolding get_miss[OF miss] Let_def
    by (cases "client q (provider_userId p)
          (if truthy ws then Some (getSessionId sha (orElse ws [])) else None)") simp_all
qed

text \<open>
  C10. Every entry of the cache of a provider, after any sequence of lookups and resets
  since its construction and whatever the client answers, has a context that is not
  empty. A failed request to the remote store makes \<open>fetchMemoryContext\<close> return the
  empty context. A lookup that called the client and got the empty context (the client
  threw, or returned it) leaves the provider unchanged, so every lookup for that query at
  the same or a later time calls the client again.
\<close>

theorem empty_context_never_cached:
  "cache_nonempty (provider_run sha client \<lparr>provider_userId = u, cache = Map.empty\<rparr> ops) \<and>
   (api (if trim q \<noteq> [] then trim q else ''Get user memory context'') u sid = None \<longrightarrow>
      result_context (fetchMemoryContext api q u sid) = []) \<and>
   (snd (snd (getMemoryContext sha client now now' q ws p)) \<noteq> [] \<and>
    fst (getMemoryContext sha client now now' q ws p) = [] \<longrightarrow>
      fst (snd (getMemoryContext sha client now now' q ws p)) = p \<and>
      (\<forall>t t'. now \<le> t \<longrightarrow>
         snd (snd (getMemoryContext sha client t t' q ws p)) =
           [FetchMemoryContext q (provider_userId p)
              (if truthy ws then Some (getSessionId sha (orElse ws [])) else None)]))"
proof (intro conjI impI allI)
  show "cache_nonempty (provider_run sha client \<lparr>provider_userId = u, cache = Map.empty\<rparr> ops)"
    by (rule cache_nonempty_run) (simp add: cache_nonempty_def)
next
  assume "api (if trim q \<noteq> [] then trim q else ''Get user memory context'') u sid = None"
  then show "result_context (fetchMemoryContext api q u sid) = []"
    by (simp add: fetchMemoryContext_def Let_def)
next
  assume h: "snd (snd (getMemoryContext sha client now now' q ws p)) \<noteq> [] \<and>
    fst (getMemoryContext sha client now now' q ws p) = []"
  then show "fst (snd (getMemoryContext sha client now now' q ws p)) = p"
    using empty_fetch_keeps_provider by blast
next
  fix t t' :: int
  assume h: "snd (snd (getMemoryContext sha client now now' q ws p)) \<noteq> [] \<and>
    fst (getMemoryContext sha client now now' q ws p) = []"
    and later: "now \<le> t"
  from h have "cache p (cacheKey sha (provider_userId p) q ws) = None \<or>
     (\<exists>e. cache p (cacheKey sha (provider_userId p) q ws) = Some e \<and>
          \<not> now - timestamp e < cacheTimeout)"
    by (simp only: fetched_iff_miss)
  with later have "cache p (cacheKey sha (provider_userId p) q ws) = None \<or>
     (\<exists>e. cache p (cacheKey sha (provider_userId p) q ws) = Some e \<and>
          \<not> t - timestamp e < cacheTimeout)"
    by fastforce
  then have "snd (snd (getMemoryContext sha client t t' q ws p)) \<noteq> []"
    by (simp only: fetched_iff_miss)
  then show "snd (snd (getMemoryContext sha client t t' q ws p)) =
           [FetchMemoryContext q (provider_userId p)
              (if truthy ws then Some (getSessionId sha (orElse ws [])) else None)]"
    by (rule fetch_call)
qed

theorem empty_context_never_cached_witness:
  "(let remote = (\<lambda>q u s. if q = ''hello''
                    then Inr \<lparr>result_context = ''ctx'', memoriesFound = 1, codeMemory = None\<rparr>
                    else Inl ClientError);
        p0 = \<lparr>provider_userId = ''u'', cache = Map.empty\<rparr>;
        p2 = provider_run (\<lambda>x. x) remote p0 [Get 0 5 ''hello'' None, Get 6 7 ''bye'' None]
    in cache_nonempty p2 \<and>
       result_context (fetchMemoryContext (\<lambda>q u s. None) ''bye'' ''u'' None) = [] \<and>
       getMemoryContext (\<lambda>x. x) remote 6 7 ''bye'' None p0 =
         ([], p0, [FetchMemoryContext ''bye'' ''u'' None]) \<and>
       snd (snd (getMemoryContext (\<lambda>x. x) remote 8 9 ''bye'' None p0)) =
         [FetchMemoryContext ''bye'' ''u'' None])"
proof -
  let ?remote = "(\<lambda>q u s. if q = ''hello''
                    then Inr \<lparr>result_context = ''ctx'', memoriesFound = 1, codeMemory = None\<rparr>
                    else Inl ClientError)
      :: string \<Rightarrow> string \<Rightarrow> string option \<Rightarrow> client_error + MemoryContextResult"
  let ?p0 = "\<lparr>provider_userId = ''u'', cache = Map.empty\<rparr>"
  note inst = empty_context_never_cached
      [where sha = "\<lambda>x. x" and client = ?remote and u = "''u''"
         and ops = "[Get 0 5 ''hello'' None, Get 6 7 ''bye'' None]"
         and api = "\<lambda>q u s. None" and q = "''bye''" and sid = None
         and now = 6 and now' = 7 and ws = None and p = ?p0]
  have first: "getMemoryContext (\<lambda>x. x) ?remote 6 7 ''bye'' None ?p0 =
         ([], ?p0, [FetchMemoryContext ''bye'' ''u'' None])"
    by (simp add: getMemoryContext_def Let_def truthy_def)
  have inv: "cache_nonempty (provider_run (\<lambda>x. x) ?remote ?p0
      [Get 0 5 ''hello'' None, Get 6 7 ''bye'' None])"
    using inst by blast
  have failed: "result_context (fetchMemoryContext (\<lambda>q u s. None) ''bye'' ''u'' None) = []"
    using inst by simp
  have again: "snd (snd (getMemoryContext (\<lambda>x. x) ?remote 8 9 ''bye'' None ?p0)) =
         [FetchMemoryContext ''bye'' ''u'' None]"
    using inst first by (simp add: truthy_def)
  show ?thesis
    unfolding Let_def using inv failed first again by blast
qed

section \<open>Properties of the sequencer\<close>

lemma derive_chunk_id_length: "length (derive_chunk_id ident pth) \<le> 32"
  by (simp add: derive_chunk_id_def)

text \<open>
  C9, as the code has it. An artifact without a chunk identifier whose identifier and
  path are both present and not empty is sent with the first 32 characters of the
  base64 encoding of \<^verbatim>\<open>identifier:path\<close>, a function of those two fields alone, so two
  such artifacts with the same identifier and path are sent with the same chunk
  identifier. Every other artifact is sent as it is. These are the artifacts of the
  record request.
\<close>

theorem chunk_id_derivation:
  "(\<not> truthy (chunk_id a) \<and> artifact_identifier a \<noteq> [] \<and> truthy (path a) \<longrightarrow>
      withChunkId a =
        a\<lparr>chunk_id := Some (take 32 (base64 (concat (map utf8
              (artifact_identifier a @ '':'' @ orElse (path a) [])))))\<rparr>) \<and>
   (truthy (chunk_id a) \<or> artifact_identifier a = [] \<or> \<not> truthy (path a) \<longrightarrow>
      withChunkId a = a) \<and>
   (\<not> truthy (chunk_id a) \<and> artifact_identifier a \<noteq> [] \<and> truthy (path a) \<and>
    \<not> truthy (chunk_id b) \<and> artifact_identifier b = artifact_identifier a \<and> path b = path a \<longrightarrow>
      chunk_id (withChunkId b) = chunk_id (withChunkId a)) \<and>
   updateMemoryAfterResponse sha git u q r arts (Some ws) =
     [RecordCodeArtifact
        \<lparr>user_id = u, session_id = getSessionId sha ws, payload_query = q,
         payload_response = r, artifacts = map withChunkId arts, metadata = git\<rparr>,
      Wait 2000, UpdateMemoryFileAgain q ws]"
proof (intro conjI impI)
  assume "\<not> truthy (chunk_id a) \<and> artifact_identifier a \<noteq> [] \<and> truthy (path a)"
  then show "withChunkId a =
        a\<lparr>chunk_id := Some (take 32 (base64 (concat (map utf8
              (artifact_identifier a @ '':'' @ orElse (path a) [])))))\<rparr>"
    by (simp add: withChunkId_def derive_chunk_id_def chunkIdSource_def)
next
  assume "truthy (chunk_id a) \<or> artifact_identifier a = [] \<or> \<not> truthy (path a)"
  then show "withChunkId a = a"
    by (auto simp: withChunkId_def)
next
  assume "\<not> truthy (chunk_id a) \<and> artifact_identifier a \<noteq> [] \<and> truthy (path a) \<and>
    \<not> truthy (chunk_id b) \<and> artifact_identifier b = artifact_identifier a \<and> path b = path a"
  then show "chunk_id (withChunkId b) = chunk_id (withChunkId a)"
    by (simp add: withChunkId_def)
next
  show "updateMemoryAfterResponse sha git u q r arts (Some ws) =
     [RecordCodeArtifact
        \<lparr>user_id = u, session_id = getSessionId sha ws, payload_query = q,
         payload_response = r, artifacts = map withChunkId arts, metadata = git\<rparr>,
      Wait 2000, UpdateMemoryFileAgain q ws]"
    by (simp add: updateMemoryAfterResponse_def artifactsWithChunkId_def)
qed

theorem chunk_id_derivation_witness:
  "(let a = \<lparr>artifact_identifier = ''foo'', path = Some ''src/a.ts'', language = None,
              summary = None, status = Some ''success'', tags = [], outcome = None,
              chunk_id = None, diff = None, test_status = None\<rparr>
    in \<not> truthy (chunk_id a) \<and> truthy (path a) \<and>
       withChunkId a = a\<lparr>chunk_id := Some ''Zm9vOnNyYy9hLnRz''\<rparr> \<and>
       withChunkId (a\<lparr>chunk_id := Some ''given''\<rparr>) = a\<lparr>chunk_id := Some ''given''\<rparr>)"
proof -
  let ?a = "\<lparr>artifact_identifier = ''foo'', path = Some ''src/a.ts'', language = None,
              summary = None, status = Some ''success'', tags = [], outcome = None,
              chunk_id = None, diff = None, test_status = None\<rparr>"
  have enc: "take 32 (base64 (concat (map utf8 ''foo:src/a.ts''))) = ''Zm9vOnNyYy9hLnRz''"
    by (simp add: utf8_def base64_digit_def)
  have derived: "withChunkId ?a = ?a\<lparr>chunk_id := Some ''Zm9vOnNyYy9hLnRz''\<rparr>"
    using chunk_id_derivation[where a = ?a] enc
    by (simp add: truthy_def orElse_def)
  have given: "withChunkId (?a\<lparr>chunk_id := Some ''given''\<rparr>) = ?a\<lparr>chunk_id := Some ''given''\<rparr>"
    using chunk_id_derivation[where a = "?a\<lparr>chunk_id := Some ''given''\<rparr>"]
    by (simp add: truthy_def)
  show ?thesis
    unfolding Let_def using derived given by (simp add: truthy_def)
qed

text \<open>
  C9 as stated fails for an artifact without a path, such as those
  \<open>extractArtifactsFromResponse\<close> builds: its chunk identifier is absent and stays so.
\<close>

theorem chunk_id_without_path_counterexample:
  "(let a = \<lparr>artifact_identifier = ''handleRequest'', path = None,
              language = Some ''typescript'',
              summary = Some ''Generated from assistant response'', status = Some ''success'',
              tags = [''generated''], outcome = None, chunk_id = None, diff = None,
              test_status = None\<rparr>
    in chunk_id a = None \<and> artifactsWithChunkId [a] = [a] \<and>
       chunk_id (hd (artifactsWithChunkId [a])) = None)"
  by (simp add: Let_def artifactsWithChunkId_def withChunkId_def truthy_def)

lemma flag_inv_new: "flag_inv new_sequencer"
  by (simp add: flag_inv_def new_sequencer_def)

lemma flag_inv_turn:
  assumes inv: "flag_inv s"
  shows "flag_inv (turn s ev)"
proof (cases ev)
  case (CallUpdateContextForChat ws q)
  show ?thesis
  proof (cases "isUpdating s")
    case True
    with inv CallUpdateContextForChat show ?thesis by simp
  next
    case False
    with inv have "filter is_chat_refresh (in_flight s) = []"
      by (simp add: flag_inv_def)
    with False CallUpdateContextForChat show ?thesis
      by (simp add: flag_inv_def is_chat_refresh_def)
  qed
next
  case (SettleUpdateContextForChat ws q rejected)
  show ?thesis
  proof (cases "ChatRefresh ws q \<in> set (in_flight s)")
    case True
    then have mem: "ChatRefresh ws q \<in> set (filter is_chat_refresh (in_flight s))"
      by (simp add: is_chat_refresh_def)
    from inv have "length (filter is_chat_refresh (in_flight s)) \<le> 1"
      by (simp add: flag_inv_def)
    with mem have "filter is_chat_refresh (in_flight s) = [ChatRefresh ws q]"
      by (cases "filter is_chat_refresh (in_flight s)") auto
    then have "filter is_chat_refresh (remove1 (ChatRefresh ws q) (in_flight s)) = []"
      by (simp add: filter_remove1)
    with True SettleUpdateContextForChat show ?thesis
      by (simp add: flag_inv_def)
  next
    case False
    with inv SettleUpdateContextForChat show ?thesis by simp
  qed
next
  case (CallUpdateMemoryAfterResponse ws q r)
  with inv show ?thesis
    by (simp add: flag_inv_def is_chat_refresh_def)
next
  case (SettleUpdateMemoryAfterResponse ws q r)
  have "ResponseSync ws q r \<notin> set (filter is_chat_refresh (in_flight s))"
    by (simp add: is_chat_refresh_def)
  then have "filter is_chat_refresh (remove1 (ResponseSync ws q r) (in_flight s)) =
      filter is_chat_refresh (in_flight s)"
    by (simp add: filter_remove1 remove1_idem)
  with inv SettleUpdateMemoryAfterResponse show ?thesis
    by (simp add: flag_inv_def)
qed

lemma flag_inv_run: "flag_inv s \<Longrightarrow> flag_inv (run_loop s evs)"
  unfolding run_loop_def
  by (induction evs arbitrary: s) (simp_all add: flag_inv_turn)

text \<open>
  C8, as the code has it. The in-progress flag belongs to the injector and guards
  \<open>updateContextForChat\<close> only. In every state the event loop can reach, at most one call
  of \<open>updateContextForChat\<close> is in flight, and the flag is set exactly then; a call made
  while the flag is set returns at once, and changes nothing: no file is written and
  nothing is queued; once the call in flight has settled, by returning or by throwing,
  the flag is reset and the next call proceeds.
\<close>

theorem single_flight_chat_refresh:
  "(let s = run_loop new_sequencer evs
    in length (filter is_chat_refresh (in_flight s)) \<le> 1 \<and>
       (isUpdating s \<longleftrightarrow> filter is_chat_refresh (in_flight s) \<noteq> []) \<and>
       (isUpdating s \<longrightarrow> turn s (CallUpdateContextForChat ws q) = s) \<and>
       (\<forall>ws0 q0 rejected. ChatRefresh ws0 q0 \<in> set (in_flight s) \<longrightarrow>
          (let s' = turn s (SettleUpdateContextForChat ws0 q0 rejected)
           in \<not> isUpdating s' \<and>
              turn s' (CallUpdateContextForChat ws q) =
                s'\<lparr>isUpdating := True, in_flight := in_flight s' @ [ChatRefresh ws q]\<rparr>)))"
proof -
  define s where "s = run_loop new_sequencer evs"
  have inv: "flag_inv s"
    unfolding s_def by (rule flag_inv_run[OF flag_inv_new])
  have one: "length (filter is_chat_refresh (in_flight s)) \<le> 1"
    and flag: "isUpdating s \<longleftrightarrow> filter is_chat_refresh (in_flight s) \<noteq> []"
    using inv by (simp_all add: flag_inv_def)
  have skip: "isUpdating s \<longrightarrow> turn s (CallUpdateContextForChat ws q) = s"
    by simp
  have after: "\<not> isUpdating (turn s (SettleUpdateContextForChat ws0 q0 rejected)) \<and>
      turn (turn s (SettleUpdateContextForChat ws0 q0 rejected)) (CallUpdateContextForChat ws q) =
        (turn s (SettleUpdateContextForChat ws0 q0 rejected))
          \<lparr>isUpdating := True,
           in_flight := in_flight (turn s (SettleUpdateContextForChat ws0 q0 rejected)) @
                          [ChatRefresh ws q]\<rparr>"
    if "ChatRefresh ws0 q0 \<in> set (in_flight s)" for ws0 q0 rejected
    using that by simp
  show ?thesis
    unfolding Let_def s_def[symmetric] using one flag skip after by blast
qed

theorem single_flight_chat_refresh_witness:
  "(let s = run_loop new_sequencer [CallUpdateContextForChat ''/w'' ''first''];
        s' = turn s (SettleUpdateContextForChat ''/w'' ''first'' True)
    in isUpdating s \<and> in_flight s = [ChatRefresh ''/w'' ''first''] \<and>
       turn s (CallUpdateContextForChat ''/w'' ''second'') = s \<and>
       \<not> isUpdating s' \<and>
       in_flight (turn s' (CallUpdateContextForChat ''/w'' ''second'')) =
         [ChatRefresh ''/w'' ''second''])"
proof -
  define s where "s = run_loop new_sequencer [CallUpdateContextForChat ''/w'' ''first'']"
  have s: "s = \<lparr>isUpdating = True, in_flight = [ChatRefresh ''/w'' ''first''],
      file_writes = []\<rparr>"
    by (simp add: s_def run_loop_def new_sequencer_def)
  note inst = single_flight_chat_refresh
      [where evs = "[CallUpdateContextForChat ''/w'' ''first'']" and ws = "''/w''"
         and q = "''second''", unfolded Let_def s_def[symmetric]]
  have skipped: "turn s (CallUpdateContextForChat ''/w'' ''second'') = s"
    using inst s by simp
  have "ChatRefresh ''/w'' ''first'' \<in> set (in_flight s)"
    by (simp add: s)
  with inst have "\<not> isUpdating (turn s (SettleUpdateContextForChat ''/w'' ''first'' True)) \<and>
      turn (turn s (SettleUpdateContextForChat ''/w'' ''first'' True))
          (CallUpdateContextForChat ''/w'' ''second'') =
        (turn s (SettleUpdateContextForChat ''/w'' ''first'' True))
          \<lparr>isUpdating := True,
           in_flight := in_flight (turn s (SettleUpdateContextForChat ''/w'' ''first'' True)) @
                          [ChatRefresh ''/w'' ''second'']\<rparr>"
    by blast
  then have next_call: "\<not> isUpdating (turn s (SettleUpdateContextForChat ''/w'' ''first'' True)) \<and>
      in_flight (turn (turn s (SettleUpdateContextForChat ''/w'' ''first'' True))
          (CallUpdateContextForChat ''/w'' ''second'')) = [ChatRefresh ''/w'' ''second'']"
    by (simp add: s)
  show ?thesis
    unfolding Let_def s_def[symmetric] using s skipped next_call by simp
qed

text \<open>
  C8 as stated fails for the synchronization itself: \<open>updateMemoryAfterResponse\<close> tests
  no flag, so while the flag is set and one synchronization of a workspace is in flight,
  a second one for the same workspace starts as well, and each of them writes the file.
\<close>

theorem overlapping_sync_counterexample:
  "(let s = run_loop new_sequencer
              [CallUpdateContextForChat ''/w'' ''q0'',
               CallUpdateMemoryAfterResponse ''/w'' ''q1'' ''r1'',
               CallUpdateMemoryAfterResponse ''/w'' ''q2'' ''r2'']
    in isUpdating s \<and>
       in_flight s =
         [ChatRefresh ''/w'' ''q0'', ResponseSync ''/w'' ''q1'' ''r1'',
          ResponseSync ''/w'' ''q2'' ''r2''] \<and>
       file_writes (run_loop s
              [SettleUpdateMemoryAfterResponse ''/w'' ''q1'' ''r1'',
               SettleUpdateMemoryAfterResponse ''/w'' ''q2'' ''r2'',
               SettleUpdateContextForChat ''/w'' ''q0'' False]) = [''/w'', ''/w'', ''/w''])"
  by (simp add: Let_def run_loop_def new_sequencer_def)

end
